theory Spec2Isabelle
  imports Main
begin

section \<open>Library functions the code calls\<close>

subsection \<open>strconv: decimal parsing and formatting\<close>

text \<open>
  \<^verbatim>\<open>strconv.ParseInt(s, 10, bitSize)\<close>: an optional sign, then a non-empty run of
  decimal digits (no underscores in base 10); a value outside the signed range of
  \<open>bitSize\<close> bits is a range error. The callers only test \<open>err != nil\<close>, so the
  model returns \<open>None\<close> for every error.
\<close>

definition isDigit :: "char \<Rightarrow> bool" where
  "isDigit c = (48 \<le> (of_char c :: nat) \<and> (of_char c :: nat) \<le> 57)"

definition digitVal :: "char \<Rightarrow> nat" where
  "digitVal c = of_char c - 48"

fun parseUintAcc :: "nat \<Rightarrow> string \<Rightarrow> nat option" where
  "parseUintAcc acc [] = Some acc"
| "parseUintAcc acc (c # cs) =
     (if isDigit c then parseUintAcc (acc * 10 + digitVal c) cs else None)"

definition ParseUint :: "string \<Rightarrow> nat option" where
  "ParseUint s = (if s = [] then None else parseUintAcc 0 s)"

definition ParseInt :: "string \<Rightarrow> nat \<Rightarrow> int option" where
  "ParseInt s bitSize =
     (case s of
        [] \<Rightarrow> None
      | c # cs \<Rightarrow>
          (let neg = (c = CHR ''-'');
               body = (if c = CHR ''+'' \<or> c = CHR ''-'' then cs else s)
           in case ParseUint body of
                None \<Rightarrow> None
              | Some un \<Rightarrow>
                  (let cutoff = (2 :: nat) ^ (bitSize - 1)
                   in if \<not> neg \<and> un \<ge> cutoff then None
                      else if neg \<and> un > cutoff then None
                      else Some (if neg then - int un else int un))))"

text \<open>\<^verbatim>\<open>strconv.Itoa\<close> and \<^verbatim>\<open>strconv.FormatInt(i, 10)\<close>.\<close>

definition digitChar :: "nat \<Rightarrow> char" where
  "digitChar d = char_of (48 + d)"

function digitsOf :: "nat \<Rightarrow> string" where
  "digitsOf n = (if n < 10 then [digitChar n] else digitsOf (n div 10) @ [digitChar (n mod 10)])"
  by pat_completeness auto
termination
  by (relation "measure id") auto

declare digitsOf.simps [simp del]

definition FormatInt :: "int \<Rightarrow> string" where
  "FormatInt i = (if i < 0 then CHR ''-'' # digitsOf (nat (- i)) else digitsOf (nat i))"

subsection \<open>encoding/hex\<close>

text \<open>\<^verbatim>\<open>hex.DecodeString(s)\<close> succeeds iff \<open>s\<close> has even length and only hex digits.\<close>

definition isHexChar :: "char \<Rightarrow> bool" where
  "isHexChar c =
     (let n = (of_char c :: nat)
      in (48 \<le> n \<and> n \<le> 57) \<or> (97 \<le> n \<and> n \<le> 102) \<or> (65 \<le> n \<and> n \<le> 70))"

definition hexDecodes :: "string \<Rightarrow> bool" where
  "hexDecodes s = (even (length s) \<and> list_all isHexChar s)"

subsection \<open>btcec, schnorr, sha256 and encoding/json\<close>

text \<open>
  The secp256k1 library, SHA-256 and the JSON decoder are not code of this repository.
  They are parameters of the model, collected in one record: \<open>'k\<close> is a parsed public
  key (\<^verbatim>\<open>*btcec.PublicKey\<close>, never nil), \<open>'s\<close> a parsed signature.
  \<^item> \<open>DecodePubKey\<close>: \<^verbatim>\<open>hex.DecodeString\<close> followed by \<^verbatim>\<open>btcec.ParsePubKey\<close>;
  \<^item> \<open>EncodePubKey\<close>: \<^verbatim>\<open>hex.EncodeToString(pubkey.SerializeCompressed())\<close>;
  \<^item> \<open>DecodeSig\<close>: \<^verbatim>\<open>hex.DecodeString\<close> followed by \<^verbatim>\<open>schnorr.ParseSignature\<close>;
  \<^item> \<open>SigVerify\<close>: \<^verbatim>\<open>sig.Verify(hash, pubkey)\<close>;
  \<^item> \<open>Sum256\<close>: \<^verbatim>\<open>sha256.Sum256\<close>;
  \<^item> \<open>WitnessSigs\<close>: the \<^verbatim>\<open>Signatures\<close> field after
    \<^verbatim>\<open>json.Unmarshal([]byte(proof.Witness), &p2pkWitness)\<close>, whose error is ignored.
\<close>

record ('k, 's) extern =
  DecodePubKey :: "string \<Rightarrow> 'k option"
  EncodePubKey :: "'k \<Rightarrow> string"
  DecodeSig :: "string \<Rightarrow> 's option"
  SigVerify :: "'s \<Rightarrow> string \<Rightarrow> 'k \<Rightarrow> bool"
  Sum256 :: "string \<Rightarrow> string"
  WitnessSigs :: "string \<Rightarrow> string list"

section \<open>NUT-11: Pay-to-Public-Key\<close>

subsection \<open>Constants, errors and data\<close>

definition SIGFLAG :: string where "SIGFLAG = ''sigflag''"
definition NSIGS :: string where "NSIGS = ''n_sigs''"
definition PUBKEYS :: string where "PUBKEYS = ''pubkeys''"
definition LOCKTIME :: string where "LOCKTIME = ''locktime''"
definition REFUND :: string where "REFUND = ''refund''"
definition SIGINPUTS :: string where "SIGINPUTS = ''SIG_INPUTS''"
definition SIGALL :: string where "SIGALL = ''SIG_ALL''"

text \<open>
  The package's error values. The last four stand for the errors built with
  \<^verbatim>\<open>cashu.BuildCashuError(fmt.Sprintf(...), NUT11ErrCode)\<close>: an invalid sigflag (with
  the offending value), an n_sigs or locktime value that \<^verbatim>\<open>strconv.ParseInt\<close> rejects,
  and a public key that does not decode.
\<close>

datatype cashu_error =
    InvalidTagErr
  | TooManyTagsErr
  | NSigsMustBePositiveErr
  | EmptyPubkeysErr
  | InvalidWitness
  | InvalidKindErr
  | DuplicateSignaturesErr
  | NotEnoughSignaturesErr
  | NoSignaturesErr
  | InvalidSigflag string
  | InvalidNSigsValue
  | InvalidLocktime
  | InvalidPublicKey

record 'k P2PKTags =
  Sigflag :: string
  NSigs :: int
  Pubkeys :: "'k list"
  Locktime :: int
  Refund :: "'k list"

text \<open>\<^verbatim>\<open>P2PKTags{}\<close>: the zero value.\<close>

definition zeroTags :: "'k P2PKTags" where
  "zeroTags = \<lparr>Sigflag = [], NSigs = 0, Pubkeys = [], Locktime = 0, Refund = []\<rparr>"

text \<open>\<^verbatim>\<open>nut10.WellKnownSecret\<close> and the fields of \<^verbatim>\<open>cashu.Proof\<close> that NUT-11 reads.\<close>

record SecretData =
  Nonce :: string
  Data :: string
  Tags :: "string list list"

record WellKnownSecret =
  Kind :: nat
  SData :: SecretData

record Proof =
  Secret :: string
  Witness :: string

subsection \<open>SerializeP2PKTags and ParseP2PKTags\<close>

definition SerializeP2PKTags :: "('k, 's) extern \<Rightarrow> 'k P2PKTags \<Rightarrow> string list list" where
  "SerializeP2PKTags X p2pkTags =
     (if Sigflag p2pkTags = SIGALL then [[SIGFLAG, SIGALL]] else [])
     @ (if NSigs p2pkTags > 0 then [[NSIGS, FormatInt (NSigs p2pkTags)]] else [])
     @ (if length (Pubkeys p2pkTags) > 0
        then [PUBKEYS # map (EncodePubKey X) (Pubkeys p2pkTags)] else [])
     @ (if Locktime p2pkTags > 0 then [[LOCKTIME, FormatInt (Locktime p2pkTags)]] else [])
     @ (if length (Refund p2pkTags) > 0
        then [REFUND # map (EncodePubKey X) (Refund p2pkTags)] else [])"

definition ParsePublicKey :: "('k, 's) extern \<Rightarrow> string \<Rightarrow> cashu_error + 'k" where
  "ParsePublicKey X key =
     (case DecodePubKey X key of None \<Rightarrow> Inl InvalidPublicKey | Some pubkey \<Rightarrow> Inr pubkey)"

text \<open>The inner loops of the \<^verbatim>\<open>pubkeys\<close> and \<^verbatim>\<open>refund\<close> cases: \<open>tag[1:]\<close>, key by key.\<close>

fun parseKeys :: "('k, 's) extern \<Rightarrow> string list \<Rightarrow> cashu_error + 'k list" where
  "parseKeys X [] = Inr []"
| "parseKeys X (s # ss) =
     (case ParsePublicKey X s of
        Inl e \<Rightarrow> Inl e
      | Inr pubkey \<Rightarrow>
          (case parseKeys X ss of Inl e \<Rightarrow> Inl e | Inr ks \<Rightarrow> Inr (pubkey # ks)))"

text \<open>One iteration of the loop over the tags: the \<^verbatim>\<open>switch\<close> on \<open>tag[0]\<close>.\<close>

definition parseTag ::
  "('k, 's) extern \<Rightarrow> 'k P2PKTags \<Rightarrow> string list \<Rightarrow> cashu_error + 'k P2PKTags" where
  "parseTag X p2pkTags tag =
     (case tag of
        tagType # v # rest \<Rightarrow>
          if tagType = SIGFLAG then
            (if v = SIGINPUTS \<or> v = SIGALL then Inr (p2pkTags\<lparr>Sigflag := v\<rparr>)
             else Inl (InvalidSigflag v))
          else if tagType = NSIGS then
            (case ParseInt v 8 of
               None \<Rightarrow> Inl InvalidNSigsValue
             | Some nsig \<Rightarrow>
                 if nsig < 0 then Inl NSigsMustBePositiveErr
                 else Inr (p2pkTags\<lparr>NSigs := nsig\<rparr>))
          else if tagType = PUBKEYS then
            (case parseKeys X (v # rest) of
               Inl e \<Rightarrow> Inl e
             | Inr pubkeys \<Rightarrow> Inr (p2pkTags\<lparr>Pubkeys := pubkeys\<rparr>))
          else if tagType = LOCKTIME then
            (case ParseInt v 64 of
               None \<Rightarrow> Inl InvalidLocktime
             | Some locktime \<Rightarrow> Inr (p2pkTags\<lparr>Locktime := locktime\<rparr>))
          else if tagType = REFUND then
            (case parseKeys X (v # rest) of
               Inl e \<Rightarrow> Inl e
             | Inr refundKeys \<Rightarrow> Inr (p2pkTags\<lparr>Refund := refundKeys\<rparr>))
          else Inr p2pkTags
      | _ \<Rightarrow> Inl InvalidTagErr)"

fun parseTagsLoop ::
  "('k, 's) extern \<Rightarrow> 'k P2PKTags \<Rightarrow> string list list \<Rightarrow> cashu_error + 'k P2PKTags" where
  "parseTagsLoop X p2pkTags [] = Inr p2pkTags"
| "parseTagsLoop X p2pkTags (tag # tags) =
     (case parseTag X p2pkTags tag of
        Inl e \<Rightarrow> Inl e
      | Inr p2pkTags' \<Rightarrow> parseTagsLoop X p2pkTags' tags)"

definition ParseP2PKTags ::
  "('k, 's) extern \<Rightarrow> string list list \<Rightarrow> cashu_error + 'k P2PKTags" where
  "ParseP2PKTags X tags =
     (if length tags > 5 then Inl TooManyTagsErr else parseTagsLoop X zeroTags tags)"

subsection \<open>SIG_ALL detection\<close>

fun isSigAllLoop :: "string list list \<Rightarrow> bool" where
  "isSigAllLoop [] = False"
| "isSigAllLoop (tag # tags) =
     (if length tag = 2 \<and> tag ! 0 = SIGFLAG \<and> tag ! 1 = SIGALL then True
      else isSigAllLoop tags)"

definition IsSigAll :: "WellKnownSecret \<Rightarrow> bool" where
  "IsSigAll secret = isSigAllLoop (Tags (SData secret))"

text \<open>
  \<^verbatim>\<open>nut10.DeserializeSecret\<close> is not among the sources; it is the parameter \<open>D\<close>,
  returning \<open>Inl\<close> for a secret that is not a well-known secret.
\<close>

fun ProofsSigAll :: "(string \<Rightarrow> 'e + WellKnownSecret) \<Rightarrow> Proof list \<Rightarrow> bool" where
  "ProofsSigAll D [] = False"
| "ProofsSigAll D (prf # proofs) =
     (case D (Secret prf) of
        Inl err \<Rightarrow> False
      | Inr secret \<Rightarrow> if IsSigAll secret then True else ProofsSigAll D proofs)"

subsection \<open>Signature checks\<close>

text \<open>The map \<^verbatim>\<open>sigs\<close> of signatures seen so far; a missing key reads as \<open>false\<close>.\<close>

fun duplicateLoop :: "(string \<rightharpoonup> bool) \<Rightarrow> string list \<Rightarrow> bool" where
  "duplicateLoop sigs [] = False"
| "duplicateLoop sigs (sg # signatures) =
     (if (case sigs sg of None \<Rightarrow> False | Some b \<Rightarrow> b) then True
      else duplicateLoop (sigs(sg \<mapsto> True)) signatures)"

definition DuplicateSignatures :: "string list \<Rightarrow> bool" where
  "DuplicateSignatures signatures = duplicateLoop Map.empty signatures"

definition ParseSignature :: "('k, 's) extern \<Rightarrow> string \<Rightarrow> 's option" where
  "ParseSignature X signature = DecodeSig X signature"

text \<open>The index of the first element satisfying \<open>P\<close>: where the inner loop breaks.\<close>

fun findIndex :: "('a \<Rightarrow> bool) \<Rightarrow> 'a list \<Rightarrow> nat option" where
  "findIndex P [] = None"
| "findIndex P (x # xs) = (if P x then Some 0 else map_option Suc (findIndex P xs))"

text \<open>\<^verbatim>\<open>slices.Delete(s, i, i+1)\<close> for \<open>i < len(s)\<close>.\<close>

definition slicesDelete :: "'a list \<Rightarrow> nat \<Rightarrow> 'a list" where
  "slicesDelete s i = take i s @ drop (Suc i) s"

text \<open>
  The loop of \<^verbatim>\<open>HasValidSignatures\<close> over the signatures, carrying
  \<^verbatim>\<open>validSignatures\<close> and \<^verbatim>\<open>pubkeysCopy\<close>; it returns the final count.
\<close>

fun validLoop ::
  "('k, 's) extern \<Rightarrow> string \<Rightarrow> string list \<Rightarrow> nat \<Rightarrow> 'k list \<Rightarrow> nat" where
  "validLoop X hash [] validSignatures pubkeysCopy = validSignatures"
| "validLoop X hash (signature # signatures) validSignatures pubkeysCopy =
     (case ParseSignature X signature of
        None \<Rightarrow> validLoop X hash signatures validSignatures pubkeysCopy
      | Some sg \<Rightarrow>
          (case findIndex (\<lambda>pubkey. SigVerify X sg hash pubkey) pubkeysCopy of
             None \<Rightarrow> validLoop X hash signatures validSignatures pubkeysCopy
           | Some i \<Rightarrow>
               validLoop X hash signatures (validSignatures + 1)
                 (if length pubkeysCopy > 1 then slicesDelete pubkeysCopy i
                  else pubkeysCopy)))"

definition HasValidSignatures ::
  "('k, 's) extern \<Rightarrow> string \<Rightarrow> string list \<Rightarrow> int \<Rightarrow> 'k list \<Rightarrow> bool" where
  "HasValidSignatures X hash signatures Nsigs pubkeys =
     (int (validLoop X hash signatures 0 pubkeys) \<ge> Nsigs)"

subsection \<open>VerifyP2PKLockedProof\<close>

text \<open>
  The result is the Go \<^verbatim>\<open>error\<close>: \<open>None\<close> is \<^verbatim>\<open>nil\<close>. The clock
  \<^verbatim>\<open>time.Now().Local().Unix()\<close> is the parameter \<open>now\<close>.
\<close>

definition VerifyP2PKLockedProof ::
  "('k, 's) extern \<Rightarrow> int \<Rightarrow> Proof \<Rightarrow> WellKnownSecret \<Rightarrow> cashu_error option" where
  "VerifyP2PKLockedProof X now prf proofSecret =
     (let signatures = WitnessSigs X (Witness prf)
      in case ParseP2PKTags X (Tags (SData proofSecret)) of
           Inl err \<Rightarrow> Some err
         | Inr p2pkTags \<Rightarrow>
             if Locktime p2pkTags > 0 \<and> now > Locktime p2pkTags then
               (if length (Refund p2pkTags) = 0 then None
                else if length signatures < 1 then Some InvalidWitness
                else if \<not> HasValidSignatures X (Sum256 X (Secret prf)) signatures 1
                            (Refund p2pkTags)
                then Some NotEnoughSignaturesErr
                else None)
             else
               (case ParsePublicKey X (Data (SData proofSecret)) of
                  Inl err \<Rightarrow> Some err
                | Inr pubkey \<Rightarrow>
                    if NSigs p2pkTags > 0 \<and> length (Pubkeys p2pkTags) = 0
                    then Some EmptyPubkeysErr
                    else
                      (let signaturesRequired =
                             (if NSigs p2pkTags > 0 then NSigs p2pkTags else 1);
                           keys = (if NSigs p2pkTags > 0 then pubkey # Pubkeys p2pkTags
                                   else [pubkey])
                       in if length signatures < 1 then Some InvalidWitness
                          else if DuplicateSignatures signatures
                          then Some DuplicateSignaturesErr
                          else if \<not> HasValidSignatures X (Sum256 X (Secret prf)) signatures
                                      signaturesRequired keys
                          then Some NotEnoughSignaturesErr
                          else None)))"

section \<open>Wallet: keyset registry\<close>

subsection \<open>Go errors\<close>

text \<open>
  A Go \<^verbatim>\<open>error\<close> value, as far as the wallet looks at it: the text of
  \<^verbatim>\<open>err.Error()\<close> and the dynamic type that \<^verbatim>\<open>isNetworkError\<close> tests with type
  assertions. \<^verbatim>\<open>errors.New\<close> and \<^verbatim>\<open>fmt.Errorf\<close> (used without \<open>%w\<close>) build
  errors of no network type. An index out of range is a panic, kept apart from the
  returned errors.
\<close>

datatype err_type = NetErrorT | NetOpErrorT | UrlErrorT | OtherT

record go_error =
  errText :: string
  errType :: err_type

datatype failure = Err go_error | Panic

definition errorsNew :: "string \<Rightarrow> go_error" where
  "errorsNew msg = \<lparr>errText = msg, errType = OtherT\<rparr>"

subsection \<open>isNetworkError\<close>

text \<open>
  \<^verbatim>\<open>strings.ToLower\<close> maps Unicode letters to lower case and is not modelled: it
  is the parameter \<open>lower\<close>. \<^verbatim>\<open>strings.Contains\<close> is modelled below.
\<close>

fun hasPrefix :: "string \<Rightarrow> string \<Rightarrow> bool" where
  "hasPrefix s [] = True"
| "hasPrefix [] (p # ps) = False"
| "hasPrefix (c # cs) (p # ps) = (c = p \<and> hasPrefix cs ps)"

fun Contains :: "string \<Rightarrow> string \<Rightarrow> bool" where
  "Contains [] substr = (substr = [])"
| "Contains (c # cs) substr = (hasPrefix (c # cs) substr \<or> Contains cs substr)"

definition networkErrors :: "string list" where
  "networkErrors =
     [''no such host'', ''connection refused'', ''connection timeout'',
      ''network is unreachable'', ''temporary failure in name resolution'',
      ''i/o timeout'', ''no route to host'', ''connection reset by peer'',
      ''server misbehaving'', ''dial tcp'', ''lookup'']"

text \<open>The argument is a non-nil error; for \<^verbatim>\<open>nil\<close> the function returns false.\<close>

definition isNetworkError :: "(string \<Rightarrow> string) \<Rightarrow> go_error \<Rightarrow> bool" where
  "isNetworkError lower err =
     (if list_ex (\<lambda>netErr. Contains (lower (errText err)) netErr) networkErrors then True
      else if errType err = NetErrorT then True
      else if errType err = NetOpErrorT then True
      else if errType err = UrlErrorT then True
      else False)"

subsection \<open>Keysets, the wallet and what it talks to\<close>

text \<open>
  An entry of the mint's keyset list (\<^verbatim>\<open>GetAllKeysets\<close>) and an entry of the answer to
  \<^verbatim>\<open>GetKeysetById\<close>. \<open>'keys\<close> is \<^verbatim>\<open>crypto.PublicKeys\<close>, only passed along here.
\<close>

record Keyset =
  kId :: string
  kUnit :: string
  kActive :: bool
  kInputFeePpk :: nat

record 'keys KeysetKeys =
  rId :: string
  rKeys :: "'keys"

record 'keys WalletKeyset =
  Id :: string
  MintURL :: string
  Unit :: string
  Active :: bool
  PublicKeys :: "'keys"
  Counter :: nat
  InputFeePpk :: nat

text \<open>
  \<^verbatim>\<open>walletMint\<close> is stored by value in \<^verbatim>\<open>w.mints\<close>, but its field
  \<^verbatim>\<open>inactiveKeysets\<close> is a Go map, that is a reference: the copy
  \<^verbatim>\<open>mint, ok := w.mints[mintURL]\<close> shares it with the wallet's entry. In the model
  every write to the map through the copy is applied to the wallet's entry at once
  (\<open>shareInactive\<close>).
\<close>

record 'keys walletMint =
  wmMintURL :: string
  wmActiveKeyset :: "'keys WalletKeyset"
  wmInactiveKeysets :: "string \<rightharpoonup> 'keys WalletKeyset"

text \<open>The wallet: its unit (\<^verbatim>\<open>w.unit.String()\<close>), its mints and the keysets in its database.\<close>

record 'keys Wallet =
  wunit :: string
  mints :: "string \<rightharpoonup> 'keys walletMint"
  db :: "string \<rightharpoonup> 'keys WalletKeyset"

text \<open>
  What the wallet calls: the mint's HTTP client, \<^verbatim>\<open>crypto.DeriveKeysetId\<close> (not among
  the sources), whether the database refuses to save a keyset, and
  \<^verbatim>\<open>strings.ToLower\<close>.
\<close>

record 'keys world =
  GetAllKeysets :: "string \<Rightarrow> failure + Keyset list"
  GetKeysetById :: "string \<Rightarrow> string \<Rightarrow> failure + 'keys KeysetKeys list"
  DeriveKeysetId :: "'keys \<Rightarrow> string"
  SaveKeysetErr :: "'keys WalletKeyset \<Rightarrow> go_error option"
  StringsToLower :: "string \<Rightarrow> string"

definition SaveKeyset ::
  "'keys world \<Rightarrow> 'keys Wallet \<Rightarrow> 'keys WalletKeyset \<Rightarrow> failure + 'keys Wallet" where
  "SaveKeyset W w keyset =
     (case SaveKeysetErr W keyset of
        Some err \<Rightarrow> Inl (Err err)
      | None \<Rightarrow> Inr (w\<lparr>db := (db w)(Id keyset \<mapsto> keyset)\<rparr>))"

definition GetKeyset :: "'keys Wallet \<Rightarrow> string \<Rightarrow> 'keys WalletKeyset option" where
  "GetKeyset w ident = db w ident"

text \<open>The text of an error of the client or the database, for \<open>%v\<close>.\<close>

fun failureText :: "failure \<Rightarrow> string" where
  "failureText (Err e) = errText e"
| "failureText Panic = ''panic''"

subsection \<open>GetKeysetKeys and GetMintActiveKeyset\<close>

definition GetKeysetKeys :: "'keys world \<Rightarrow> string \<Rightarrow> string \<Rightarrow> failure + 'keys" where
  "GetKeysetKeys W mintURL ident =
     (case GetKeysetById W mintURL ident of
        Inl (Err err) \<Rightarrow>
          Inl (Err (errorsNew (''error getting keyset from mint: '' @ errText err)))
      | Inl Panic \<Rightarrow> Inl Panic
      | Inr [] \<Rightarrow> Inl Panic
      | Inr (first # others) \<Rightarrow>
          (let derivedId = DeriveKeysetId W (rKeys first)
           in if ident \<noteq> derivedId
              then Inl (Err (errorsNew (''Got invalid keyset. Derived id: '' @ [CHR 0x27]
                     @ derivedId @ [CHR 0x27] @ '' but got '' @ [CHR 0x27] @ rId first
                     @ [CHR 0x27] @ '' from mint'')))
              else Inr (rKeys first)))"

fun activeKeysetLoop ::
  "'keys world \<Rightarrow> string \<Rightarrow> string \<Rightarrow> Keyset list \<Rightarrow> failure + 'keys WalletKeyset" where
  "activeKeysetLoop W mintURL u [] =
     Inl (Err (errorsNew ''could not find an active keyset for the unit''))"
| "activeKeysetLoop W mintURL u (keyset # keysets) =
     (if kActive keyset \<and> kUnit keyset = u \<and> hexDecodes (kId keyset) then
        (case GetKeysetKeys W mintURL (kId keyset) of
           Inl err \<Rightarrow> Inl err
         | Inr keys \<Rightarrow>
             Inr \<lparr>Id = kId keyset, MintURL = mintURL, Unit = kUnit keyset, Active = True,
                  PublicKeys = keys, Counter = 0, InputFeePpk = kInputFeePpk keyset\<rparr>)
      else activeKeysetLoop W mintURL u keysets)"

definition GetMintActiveKeyset ::
  "'keys world \<Rightarrow> string \<Rightarrow> string \<Rightarrow> failure + 'keys WalletKeyset" where
  "GetMintActiveKeyset W mintURL u =
     (case GetAllKeysets W mintURL of
        Inl (Err err) \<Rightarrow>
          Inl (Err (errorsNew (''error getting active keysets from mint: '' @ errText err)))
      | Inl Panic \<Rightarrow> Inl Panic
      | Inr keysets \<Rightarrow> activeKeysetLoop W mintURL u keysets)"

subsection \<open>getActiveKeyset\<close>

definition shareInactive ::
  "'keys Wallet \<Rightarrow> string \<Rightarrow> (string \<rightharpoonup> 'keys WalletKeyset) \<Rightarrow> 'keys Wallet" where
  "shareInactive w mintURL m =
     (case mints w mintURL of
        None \<Rightarrow> w
      | Some entry \<Rightarrow> w\<lparr>mints := (mints w)(mintURL \<mapsto> entry\<lparr>wmInactiveKeysets := m\<rparr>)\<rparr>)"

text \<open>
  The first loop over the refreshed list: \<open>None\<close> is \<^verbatim>\<open>activeChanged == true\<close>,
  \<open>Some fee\<close> is \<^verbatim>\<open>activeChanged == false\<close> with \<^verbatim>\<open>activeInputFeePpk == fee\<close>.
\<close>

fun stillActive :: "Keyset list \<Rightarrow> string \<Rightarrow> nat option" where
  "stillActive [] activeId = None"
| "stillActive (keyset # keysets) activeId =
     (if kActive keyset \<and> kId keyset = activeId then Some (kInputFeePpk keyset)
      else stillActive keysets activeId)"

text \<open>
  The second loop, run when the active keyset changed. It carries the local
  \<^verbatim>\<open>activeKeyset\<close>, the local copy \<^verbatim>\<open>mint\<close> and the wallet; it has no
  \<^verbatim>\<open>break\<close>, so it goes on after installing a keyset.
\<close>

fun rotateLoop ::
  "'keys world \<Rightarrow> string \<Rightarrow> Keyset list \<Rightarrow> 'keys WalletKeyset \<Rightarrow> 'keys walletMint \<Rightarrow>
   'keys Wallet \<Rightarrow> (failure + 'keys WalletKeyset) \<times> 'keys Wallet" where
  "rotateLoop W mintURL [] activeKeyset mint w = (Inr activeKeyset, w)"
| "rotateLoop W mintURL (keyset # keysets) activeKeyset mint w =
     (if kActive keyset \<and> kUnit keyset = wunit w \<and> hexDecodes (kId keyset) then
        (case GetKeyset w (kId keyset) of
           Some stored \<Rightarrow>
             (let storedKeyset = stored\<lparr>Active := True, InputFeePpk := kInputFeePpk keyset\<rparr>
              in case SaveKeyset W w storedKeyset of
                   Inl err \<Rightarrow> (Inl err, w)
                 | Inr w1 \<Rightarrow>
                     (let mint1 = mint\<lparr>wmActiveKeyset := storedKeyset,
                                   wmInactiveKeysets :=
                                     (wmInactiveKeysets mint)(Id storedKeyset := None)\<rparr>;
                          w2 = shareInactive w1 mintURL (wmInactiveKeysets mint1);
                          w3 = w2\<lparr>mints := (mints w2)(mintURL \<mapsto> mint1)\<rparr>
                      in rotateLoop W mintURL keysets storedKeyset mint1 w3))
         | None \<Rightarrow>
             (case GetKeysetKeys W mintURL (kId keyset) of
                Inl err \<Rightarrow> (Inl err, w)
              | Inr keys \<Rightarrow>
                  (let newKeyset =
                         \<lparr>Id = kId keyset, MintURL = mintURL, Unit = kUnit keyset,
                          Active = True, PublicKeys = keys, Counter = 0,
                          InputFeePpk = kInputFeePpk keyset\<rparr>
                   in case SaveKeyset W w newKeyset of
                        Inl err \<Rightarrow> (Inl err, w)
                      | Inr w1 \<Rightarrow>
                          (let mint1 = mint\<lparr>wmActiveKeyset := newKeyset\<rparr>;
                               w2 = w1\<lparr>mints := (mints w1)(mintURL \<mapsto> mint1)\<rparr>
                           in rotateLoop W mintURL keysets newKeyset mint1 w2))))
      else rotateLoop W mintURL keysets activeKeyset mint w)"

text \<open>The result is the returned keyset or error, and the wallet after the call.\<close>

definition getActiveKeyset ::
  "'keys world \<Rightarrow> 'keys Wallet \<Rightarrow> string \<Rightarrow> (failure + 'keys WalletKeyset) \<times> 'keys Wallet" where
  "getActiveKeyset W w mintURL =
     (case mints w mintURL of
        None \<Rightarrow> (GetMintActiveKeyset W mintURL (wunit w), w)
      | Some mint \<Rightarrow>
          (let activeKeyset = wmActiveKeyset mint
           in case GetAllKeysets W mintURL of
                Inl (Err err) \<Rightarrow>
                  if isNetworkError (StringsToLower W) err then (Inr activeKeyset, w)
                  else (Inl (Err err), w)
              | Inl Panic \<Rightarrow> (Inl Panic, w)
              | Inr allKeysets \<Rightarrow>
                  (case stillActive allKeysets (Id activeKeyset) of
                     None \<Rightarrow>
                       (let activeKeyset1 = activeKeyset\<lparr>Active := False\<rparr>;
                            mint1 = mint\<lparr>wmInactiveKeysets :=
                                      (wmInactiveKeysets mint)(Id activeKeyset1 \<mapsto> activeKeyset1)\<rparr>;
                            w1 = shareInactive w mintURL (wmInactiveKeysets mint1)
                        in case SaveKeyset W w1 activeKeyset1 of
                             Inl err \<Rightarrow> (Inl err, w1)
                           | Inr w2 \<Rightarrow> rotateLoop W mintURL allKeysets activeKeyset1 mint1 w2)
                   | Some activeInputFeePpk \<Rightarrow>
                       if activeInputFeePpk \<noteq> InputFeePpk activeKeyset then
                         (let activeKeyset1 = activeKeyset\<lparr>InputFeePpk := activeInputFeePpk\<rparr>
                          in case SaveKeyset W w activeKeyset1 of
                               Inl err \<Rightarrow> (Inl err, w)
                             | Inr w1 \<Rightarrow>
                                 (Inr activeKeyset1,
                                  w1\<lparr>mints := (mints w1)(mintURL \<mapsto>
                                       mint\<lparr>wmActiveKeyset := activeKeyset1\<rparr>)\<rparr>))
                       else (Inr activeKeyset, w))))"

section \<open>Subscription manager\<close>

text \<open>
  The manager's subscriptions, its counter and the methods the mint supports
  (\<^verbatim>\<open>nut17.SupportedMethod\<close>: the fields read here). The channels of a subscription
  carry no state of their own in this model; what the other goroutines do with them is
  the \<open>schedule\<close> below.
\<close>

record SupportedMethod =
  Method :: string
  Commands :: "string list"

record Subscription =
  subId :: string
  reqId :: int

record SubscriptionManager =
  subs :: "string \<rightharpoonup> Subscription"
  idCounter :: int
  supportedMethods :: "SupportedMethod list"

text \<open>
  Outside this file: \<^verbatim>\<open>cashu.BOLT11_METHOD\<close>, the subscription id
  \<^verbatim>\<open>hex.EncodeToString(sha256.Sum256(filters[0]))\<close> and the error of
  \<^verbatim>\<open>json.Marshal\<close>, if any. The kind is given by its \<^verbatim>\<open>String()\<close>.
\<close>

record wsenv =
  BOLT11_METHOD :: string
  SubIdOf :: "string \<Rightarrow> string"
  MarshalErr :: "string option"

text \<open>
  A message on the response channel (with its result status) or on the error channel
  (with its text) of the subscription.
\<close>

datatype message = Response string | WsError string

text \<open>
  What the rest of the program does while \<^verbatim>\<open>Subscribe\<close> runs:
  \<^item> \<open>WriterReceives\<close>: whether a goroutine takes the request from \<^verbatim>\<open>sm.send\<close>. The
    channel is unbuffered and the send is not in a \<^verbatim>\<open>select\<close>: with no receiver
    (\<^verbatim>\<open>Run\<close> not started, or stopped by \<^verbatim>\<open>Close\<close>) the send blocks for ever;
  \<^item> \<open>Arrival\<close>: the first message offered on the subscription's channels and its
    time, in nanoseconds after the \<^verbatim>\<open>select\<close> began; \<open>None\<close> if there is none;
  \<^item> \<open>TimerFirst\<close>: the case the \<^verbatim>\<open>select\<close> takes when the message is ready at
    the very moment the timer fires (Go picks one of the ready cases).
\<close>

record schedule =
  WriterReceives :: bool
  Arrival :: "(nat \<times> message) option"
  TimerFirst :: bool

text \<open>\<^verbatim>\<open>10 * time.Second\<close>, a \<^verbatim>\<open>time.Duration\<close> in nanoseconds.\<close>

definition subscribeTimeout :: nat where
  "subscribeTimeout = 10 * 1000000000"

text \<open>The case the \<^verbatim>\<open>select\<close> runs: a message received, or \<^verbatim>\<open>time.After\<close>.\<close>

datatype selected = Received message | TimedOut

definition selectReply :: "schedule \<Rightarrow> selected" where
  "selectReply S =
     (case Arrival S of
        None \<Rightarrow> TimedOut
      | Some (t, msg) \<Rightarrow>
          if t < subscribeTimeout then Received msg
          else if t = subscribeTimeout \<and> \<not> TimerFirst S then Received msg
          else TimedOut)"

definition removeSubscription :: "SubscriptionManager \<Rightarrow> string \<Rightarrow> SubscriptionManager" where
  "removeSubscription sm ident = sm\<lparr>subs := (subs sm)(ident := None)\<rparr>"

fun supportedLoop :: "wsenv \<Rightarrow> SupportedMethod list \<Rightarrow> string \<Rightarrow> bool" where
  "supportedLoop E [] kind = False"
| "supportedLoop E (method # methods) kind =
     (if Method method = BOLT11_METHOD E \<and> kind \<in> set (Commands method) then True
      else supportedLoop E methods kind)"

definition IsSubscriptionKindSupported :: "wsenv \<Rightarrow> SubscriptionManager \<Rightarrow> string \<Rightarrow> bool" where
  "IsSubscriptionKindSupported E sm kind = supportedLoop E (supportedMethods sm) kind"

text \<open>
  The result is \<open>None\<close> when \<^verbatim>\<open>Subscribe\<close> never returns, and otherwise the returned
  subscription or error text with the manager after the call.
\<close>

definition Subscribe ::
  "wsenv \<Rightarrow> schedule \<Rightarrow> SubscriptionManager \<Rightarrow> string \<Rightarrow> string list \<Rightarrow>
   ((string + Subscription) \<times> SubscriptionManager) option" where
  "Subscribe E S sm kind filters =
     (if length filters < 1 then Some (Inl ''filters cannot be empty'', sm)
      else if \<not> IsSubscriptionKindSupported E sm kind
      then Some (Inl (''subscription to '' @ kind @ '' not supported by mint''), sm)
      else
        (let ident = idCounter sm;
             subId = SubIdOf E (filters ! 0)
         in case MarshalErr E of
              Some err \<Rightarrow> Some (Inl (''could not make subscription request: '' @ err), sm)
            | None \<Rightarrow>
                if \<not> WriterReceives S then None
                else
                  (let sub = \<lparr>subId = subId, reqId = ident\<rparr>;
                       sm1 = sm\<lparr>subs := (subs sm)(subId \<mapsto> sub),
                                idCounter := idCounter sm + 1\<rparr>
                   in case selectReply S of
                        Received (Response status) \<Rightarrow>
                          if status = ''OK'' then Some (Inr sub, sm1)
                          else Some (Inl ''could not setup subscription to mint'',
                                     removeSubscription sm1 subId)
                      | Received (WsError err) \<Rightarrow>
                          Some (Inl (''could not setup subscription to mint: '' @ err),
                                removeSubscription sm1 subId)
                      | TimedOut \<Rightarrow>
                          Some (Inl ''could not setup subscription to mint'',
                                removeSubscription sm1 subId))))"

section \<open>Notions the properties are stated with\<close>

subsection \<open>SIG_ALL\<close>

text \<open>
  A proof is SIG_ALL-tagged when its secret deserializes as a well-known secret whose
  tags contain \<open>["sigflag", "SIG_ALL"]\<close>.
\<close>

definition deserializes :: "(string \<Rightarrow> 'e + WellKnownSecret) \<Rightarrow> Proof \<Rightarrow> bool" where
  "deserializes D prf = (case D (Secret prf) of Inl err \<Rightarrow> False | Inr secret \<Rightarrow> True)"

definition sigAllTagged :: "(string \<Rightarrow> 'e + WellKnownSecret) \<Rightarrow> Proof \<Rightarrow> bool" where
  "sigAllTagged D prf =
     (case D (Secret prf) of
        Inl err \<Rightarrow> False
      | Inr secret \<Rightarrow> [''sigflag'', ''SIG_ALL''] \<in> set (Tags (SData secret)))"

subsection \<open>Signers of a witness\<close>

text \<open>
  A signature string of the witness is a valid signature by a key when it parses and
  verifies against the key over the hash. \<open>signers\<close> are the distinct keys of a list
  with a valid signature in the witness; \<open>oneSigner\<close> says that no signature of the
  witness verifies under two different keys of the list.
\<close>

definition signedBy :: "('k, 's) extern \<Rightarrow> string \<Rightarrow> string \<Rightarrow> 'k \<Rightarrow> bool" where
  "signedBy X hash signature pubkey =
     (case DecodeSig X signature of None \<Rightarrow> False | Some sg \<Rightarrow> SigVerify X sg hash pubkey)"

definition signers :: "('k, 's) extern \<Rightarrow> string \<Rightarrow> string list \<Rightarrow> 'k list \<Rightarrow> 'k list" where
  "signers X hash signatures pubkeys =
     filter (\<lambda>pubkey. list_ex (\<lambda>s. signedBy X hash s pubkey) signatures) (remdups pubkeys)"

definition oneSigner :: "('k, 's) extern \<Rightarrow> string \<Rightarrow> string list \<Rightarrow> 'k list \<Rightarrow> bool" where
  "oneSigner X hash signatures pubkeys =
     list_all (\<lambda>s. length (filter (signedBy X hash s) (remdups pubkeys)) \<le> 1) signatures"

definition atMostOne :: "('k, 's) extern \<Rightarrow> string \<Rightarrow> string list \<Rightarrow> 'k set \<Rightarrow> bool" where
  "atMostOne X h sigs K \<longleftrightarrow>
     (\<forall>s \<in> set sigs. \<forall>k1 \<in> K. \<forall>k2 \<in> K. signedBy X h s k1 \<and> signedBy X h s k2 \<longrightarrow> k1 = k2)"

subsection \<open>Keys that survive encoding\<close>

text \<open>
  What the round trip of the tags needs of the library: the compressed serialization of
  a key decodes to a key with the same serialization.
\<close>

definition keyRoundtrip :: "('k, 's) extern \<Rightarrow> 'k \<Rightarrow> bool" where
  "keyRoundtrip X pubkey =
     (case DecodePubKey X (EncodePubKey X pubkey) of
        None \<Rightarrow> False
      | Some pubkey' \<Rightarrow> EncodePubKey X pubkey' = EncodePubKey X pubkey)"

subsection \<open>The wallet's view of a mint\<close>

text \<open>The active keyset of a mint in the wallet, and an entry of its inactive set.\<close>

definition viewActive :: "'keys Wallet \<Rightarrow> string \<Rightarrow> 'keys WalletKeyset option" where
  "viewActive w mintURL = map_option wmActiveKeyset (mints w mintURL)"

definition viewInactive :: "'keys Wallet \<Rightarrow> string \<Rightarrow> string \<Rightarrow> 'keys WalletKeyset option" where
  "viewInactive w mintURL ident =
     (case mints w mintURL of None \<Rightarrow> None | Some mint \<Rightarrow> wmInactiveKeysets mint ident)"

subsection \<open>The primary condition of a lock\<close>

text \<open>
  The keys that may sign before the locktime, and how many of them must: the data key
  alone and one signature, unless \<open>n_sigs\<close> is present; then the \<open>pubkeys\<close> too, and
  \<open>n_sigs\<close> signatures.
\<close>

definition signingKeys :: "'k P2PKTags \<Rightarrow> 'k \<Rightarrow> 'k list" where
  "signingKeys t dataKey = (if NSigs t > 0 then dataKey # Pubkeys t else [dataKey])"

definition signaturesNeeded :: "'k P2PKTags \<Rightarrow> int" where
  "signaturesNeeded t = (if NSigs t > 0 then NSigs t else 1)"

subsection \<open>Where a keyset comes from\<close>



subsection \<open>Outcomes of Subscribe\<close>

text \<open>
  The inputs under which \<open>Subscribe\<close> reaches the send of its request, and the outcome
  in which it returns an error and the manager holds no subscription under the id.
\<close>

definition failsAndRemoves ::
  "((string + Subscription) \<times> SubscriptionManager) option \<Rightarrow> string \<Rightarrow> bool" where
  "failsAndRemoves result ident =
     (case result of
        None \<Rightarrow> False
      | Some (res, sm') \<Rightarrow> isl res \<and> subs sm' ident = None)"

definition canSubscribe :: "wsenv \<Rightarrow> SubscriptionManager \<Rightarrow> string \<Rightarrow> string list \<Rightarrow> bool" where
  "canSubscribe E sm kind filters =
     (filters \<noteq> [] \<and> IsSubscriptionKindSupported E sm kind \<and> MarshalErr E = None)"

section \<open>Concrete inputs\<close>

text \<open>
  A deserializer for three secrets: \<open>opaque\<close> is not a well-known secret, \<open>all\<close>
  carries the SIG_ALL flag, any other has no tags.
\<close>

definition exampleD :: "string \<Rightarrow> unit + WellKnownSecret" where
  "exampleD s =
     (if s = ''opaque'' then Inl ()
      else Inr \<lparr>Kind = 0, SData = \<lparr>Nonce = ''n'', Data = ''d'',
                 Tags = (if s = ''all'' then [[''sigflag'', ''SIG_ALL'']] else [])\<rparr>\<rparr>)"

definition prfOf :: "string \<Rightarrow> Proof" where
  "prfOf s = \<lparr>Secret = s, Witness = []\<rparr>"

text \<open>
  A toy instance of the external library, with strings for keys and signatures: a key
  is a non-empty hex string; the signature of key \<open>k\<close> over hash \<open>h\<close> with nonce
  \<open>n\<close> is \<open>k:h:n\<close>; the hash of a string is the string itself; a witness lists its
  signatures, each followed by a semicolon.
\<close>

fun toySigs :: "string \<Rightarrow> string \<Rightarrow> string list" where
  "toySigs cur [] = []"
| "toySigs cur (c # cs) =
     (if c = CHR '';'' then rev cur # toySigs [] cs else toySigs (c # cur) cs)"

definition toyX :: "(string, string) extern" where
  "toyX =
     \<lparr>DecodePubKey = (\<lambda>s. if s \<noteq> [] \<and> hexDecodes s then Some s else None),
      EncodePubKey = (\<lambda>k. k),
      DecodeSig = (\<lambda>s. if s = [] then None else Some s),
      SigVerify = (\<lambda>sg h k. hasPrefix sg (k @ '':'' @ h @ '':'')),
      Sum256 = (\<lambda>s. s),
      WitnessSigs = toySigs []\<rparr>"

definition lockSecret :: "string list list \<Rightarrow> WellKnownSecret" where
  "lockSecret tags = \<lparr>Kind = 0, SData = \<lparr>Nonce = ''n'', Data = ''a1'', Tags = tags\<rparr>\<rparr>"

definition spend :: "string \<Rightarrow> Proof" where
  "spend w = \<lparr>Secret = ''s'', Witness = w\<rparr>"

text \<open>Tags with every field set, over the toy keys.\<close>

definition exampleTags :: "string P2PKTags" where
  "exampleTags =
     \<lparr>Sigflag = ''SIG_ALL'', NSigs = 2, Pubkeys = [''b2'', ''c3''], Locktime = 1000,
      Refund = [''e5'']\<rparr>"

text \<open>Lower case for ASCII text, where \<^verbatim>\<open>strings.ToLower\<close> maps \<open>A\<close> to \<open>Z\<close> only.\<close>

definition asciiLowerChar :: "char \<Rightarrow> char" where
  "asciiLowerChar c =
     (let n = (of_char c :: nat) in if 65 \<le> n \<and> n \<le> 90 then char_of (n + 32) else c)"

definition asciiLower :: "string \<Rightarrow> string" where
  "asciiLower s = map asciiLowerChar s"

text \<open>
  Toy mints over string keys, where the id of a key set is \<open>00\<close> followed by the keys:
  one that lists the given keysets and answers each id with its keys, one that answers
  with other keys, and one whose calls all fail with the given error. The wallet knows
  the mint \<open>m\<close> with the active keyset \<open>00aa\<close>.
\<close>

definition honestMint :: "Keyset list \<Rightarrow> string world" where
  "honestMint listing =
     \<lparr>GetAllKeysets = (\<lambda>url. Inr listing),
      GetKeysetById = (\<lambda>url ident. Inr [\<lparr>rId = ident, rKeys = drop 2 ident\<rparr>]),
      DeriveKeysetId = (\<lambda>keys. ''00'' @ keys),
      SaveKeysetErr = (\<lambda>keyset. None),
      StringsToLower = asciiLower\<rparr>"

definition lyingMint :: "string world" where
  "lyingMint =
     \<lparr>GetAllKeysets = (\<lambda>url. Inr []),
      GetKeysetById = (\<lambda>url ident. Inr [\<lparr>rId = ident, rKeys = ''ff''\<rparr>]),
      DeriveKeysetId = (\<lambda>keys. ''00'' @ keys),
      SaveKeysetErr = (\<lambda>keyset. None),
      StringsToLower = asciiLower\<rparr>"

definition failingMint :: "go_error \<Rightarrow> string world" where
  "failingMint err =
     \<lparr>GetAllKeysets = (\<lambda>url. Inl (Err err)),
      GetKeysetById = (\<lambda>url ident. Inl (Err err)),
      DeriveKeysetId = (\<lambda>keys. ''00'' @ keys),
      SaveKeysetErr = (\<lambda>keyset. None),
      StringsToLower = asciiLower\<rparr>"

definition listed :: "string \<Rightarrow> bool \<Rightarrow> Keyset" where
  "listed ident active = \<lparr>kId = ident, kUnit = ''sat'', kActive = active, kInputFeePpk = 0\<rparr>"

definition cached :: "string \<Rightarrow> bool \<Rightarrow> string WalletKeyset" where
  "cached ident active =
     \<lparr>Id = ident, MintURL = ''m'', Unit = ''sat'', Active = active, PublicKeys = drop 2 ident,
      Counter = 0, InputFeePpk = 0\<rparr>"

definition wallet0 :: "string Wallet" where
  "wallet0 =
     \<lparr>wunit = ''sat'',
      mints = [''m'' \<mapsto> \<lparr>wmMintURL = ''m'', wmActiveKeyset = cached ''00aa'' True,
                        wmInactiveKeysets = Map.empty\<rparr>],
      db = [''00aa'' \<mapsto> cached ''00aa'' True]\<rparr>"

definition offlineErr :: go_error where
  "offlineErr = \<lparr>errText = ''dial tcp: no such host'', errType = OtherT\<rparr>"

definition protocolErr :: go_error where
  "protocolErr = \<lparr>errText = ''invalid keyset'', errType = OtherT\<rparr>"

text \<open>A mint that supports one subscription kind, and a manager with no subscription.\<close>

definition wsenv0 :: wsenv where
  "wsenv0 = \<lparr>BOLT11_METHOD = ''bolt11'', SubIdOf = (\<lambda>f. ''id-'' @ f), MarshalErr = None\<rparr>"

definition manager0 :: SubscriptionManager where
  "manager0 =
     \<lparr>subs = Map.empty, idCounter = 7,
      supportedMethods = [\<lparr>Method = ''bolt11'', Commands = [''mint_quote'']\<rparr>]\<rparr>"


section \<open>Properties of NUT-11 tag parsing\<close>

lemmas tag_names = SIGFLAG_def NSIGS_def PUBKEYS_def LOCKTIME_def REFUND_def
  SIGINPUTS_def SIGALL_def

lemma ParseInt_zero: "ParseInt ''0'' 8 = Some 0"
  by (simp add: ParseInt_def ParseUint_def isDigit_def digitVal_def)

lemma parseTag_n_sigs_negative:
  "ParseInt v 8 = Some n \<Longrightarrow> n < 0 \<Longrightarrow>
   parseTag X t [''n_sigs'', v] = Inl NSigsMustBePositiveErr"
  by (simp add: parseTag_def tag_names)

text \<open>
  C4. A tag list holding \<open>["n_sigs", v]\<close> with \<open>v \<le> 0\<close> should be refused with
  \<open>NSigsMustBePositiveErr\<close>. The code tests \<open>nsig < 0\<close>: for \<open>v = "0"\<close> it returns
  parsed tags, with \<open>NSigs = 0\<close>, and no error.
\<close>

theorem ParseP2PKTags_n_sigs_zero:
  "ParseP2PKTags X [[''n_sigs'', ''0'']] = Inr (zeroTags :: 'k P2PKTags)"
  by (simp add: ParseP2PKTags_def parseTag_def tag_names ParseInt_zero zeroTags_def)

section \<open>Properties of SIG_ALL detection\<close>

lemma isSigAllLoop_iff: "isSigAllLoop tags \<longleftrightarrow> [SIGFLAG, SIGALL] \<in> set tags"
proof (induction tags)
  case Nil
  show ?case by simp
next
  case (Cons tag tags)
  have "(length tag = 2 \<and> tag ! 0 = SIGFLAG \<and> tag ! 1 = SIGALL) \<longleftrightarrow> tag = [SIGFLAG, SIGALL]"
    by (cases tag; cases "tl tag") auto
  with Cons show ?case by auto
qed

lemma IsSigAll_iff: "IsSigAll secret \<longleftrightarrow> [SIGFLAG, SIGALL] \<in> set (Tags (SData secret))"
  by (simp add: IsSigAll_def isSigAllLoop_iff)

lemma ProofsSigAll_tagged: "ProofsSigAll D proofs \<Longrightarrow> list_ex (sigAllTagged D) proofs"
  by (induction proofs)
     (auto simp: sigAllTagged_def IsSigAll_iff tag_names split: sum.splits if_splits)

lemma ProofsSigAll_prefix:
  "list_ex (\<lambda>p. \<not> deserializes D p) pre \<Longrightarrow> list_all (\<lambda>p. \<not> sigAllTagged D p) pre \<Longrightarrow>
   \<not> ProofsSigAll D (pre @ rest)"
  by (induction pre)
     (auto simp: sigAllTagged_def deserializes_def IsSigAll_iff tag_names split: sum.splits)

text \<open>
  C10. \<open>ProofsSigAll\<close> returns true only if some proof of the list is SIG_ALL-tagged;
  it returns false for the empty list; and it returns false whenever the list starts with
  proofs \<open>pre\<close>, none of them SIG_ALL-tagged, one of which has a secret that does not
  deserialize (whatever follows them in \<open>rest\<close>).
\<close>

theorem ProofsSigAll_spec:
  "(ProofsSigAll D proofs \<longrightarrow> list_ex (sigAllTagged D) proofs)
   \<and> \<not> ProofsSigAll D []
   \<and> (list_ex (\<lambda>p. \<not> deserializes D p) pre \<and> list_all (\<lambda>p. \<not> sigAllTagged D p) pre
        \<longrightarrow> \<not> ProofsSigAll D (pre @ rest))"
  using ProofsSigAll_tagged [of D proofs] ProofsSigAll_prefix [of D pre rest] by simp

theorem ProofsSigAll_spec_witness:
  "ProofsSigAll exampleD [prfOf ''plain'', prfOf ''all'']
   \<and> list_ex (sigAllTagged exampleD) [prfOf ''plain'', prfOf ''all'']
   \<and> list_ex (\<lambda>p. \<not> deserializes exampleD p) [prfOf ''plain'', prfOf ''opaque'']
   \<and> list_all (\<lambda>p. \<not> sigAllTagged exampleD p) [prfOf ''plain'', prfOf ''opaque'']
   \<and> \<not> ProofsSigAll exampleD ([prfOf ''plain'', prfOf ''opaque''] @ [prfOf ''all''])"
  using ProofsSigAll_spec [of exampleD "[prfOf ''plain'', prfOf ''all'']"
      "[prfOf ''plain'', prfOf ''opaque'']" "[prfOf ''all'']"]
  by (simp add: exampleD_def prfOf_def sigAllTagged_def deserializes_def IsSigAll_def tag_names)

section \<open>Properties of the signature checks\<close>

lemma duplicateLoop_iff:
  "duplicateLoop seen sigs \<longleftrightarrow> (\<exists>s \<in> set sigs. seen s = Some True) \<or> \<not> distinct sigs"
proof (induction sigs arbitrary: seen)
  case Nil
  show ?case by simp
next
  case (Cons sg sigs)
  show ?case
  proof (cases "seen sg = Some True")
    case True
    then show ?thesis by auto
  next
    case False
    then have "duplicateLoop seen (sg # sigs) = duplicateLoop (seen(sg \<mapsto> True)) sigs"
      by (auto split: option.splits)
    also have "\<dots> \<longleftrightarrow> (\<exists>s \<in> set sigs. (seen(sg \<mapsto> True)) s = Some True) \<or> \<not> distinct sigs"
      by (rule Cons.IH)
    also have "\<dots> \<longleftrightarrow> (\<exists>s \<in> set (sg # sigs). seen s = Some True) \<or> \<not> distinct (sg # sigs)"
      using False by auto
    finally show ?thesis .
  qed
qed

lemma DuplicateSignatures_iff: "DuplicateSignatures sigs \<longleftrightarrow> \<not> distinct sigs"
  by (simp add: DuplicateSignatures_def duplicateLoop_iff)

lemma findIndex_None: "findIndex P xs = None \<longleftrightarrow> \<not> list_ex P xs"
  by (induction xs) auto

lemma findIndex_Some: "findIndex P xs = Some i \<Longrightarrow> i < length xs \<and> P (xs ! i) \<and> (\<forall>j < i. \<not> P (xs ! j))"
proof (induction xs arbitrary: i)
  case Nil
  then show ?case by simp
next
  case (Cons x xs)
  show ?case
  proof (cases "P x")
    case True
    with Cons.prems show ?thesis by simp
  next
    case False
    with Cons.prems obtain j where j: "findIndex P xs = Some j" "i = Suc j" by auto
    from Cons.IH [OF j(1)] False j(2) show ?thesis
      by (auto simp: less_Suc_eq_0_disj)
  qed
qed

lemma validLoop_mono: "c \<le> validLoop X h sigs c ks"
proof (induction sigs arbitrary: c ks)
  case Nil
  show ?case by simp
next
  case (Cons s sigs)
  show ?case
    using Cons.IH [of c ks] Cons.IH [of "c + 1"]
    by (auto split: option.splits intro: order_trans [of c "c + 1"] simp del: One_nat_def)
qed

lemma validLoop_any:
  "c < validLoop X h sigs c ks \<longleftrightarrow> list_ex (\<lambda>s. list_ex (signedBy X h s) ks) sigs"
proof (induction sigs arbitrary: c ks)
  case Nil
  show ?case by simp
next
  case (Cons s sigs)
  show ?case
  proof (cases "list_ex (signedBy X h s) ks")
    case True
    then obtain sg where sg: "DecodeSig X s = Some sg" "list_ex (SigVerify X sg h) ks"
      by (auto simp: signedBy_def list_ex_iff split: option.splits)
    then obtain i where i: "findIndex (SigVerify X sg h) ks = Some i"
      using findIndex_None [of "SigVerify X sg h" ks] by auto
    have "c < c + 1" by simp
    also have "c + 1 \<le> validLoop X h (s # sigs) c ks"
      using sg(1) i by (simp add: ParseSignature_def validLoop_mono del: One_nat_def)
    finally show ?thesis using True by simp
  next
    case False
    then have "\<And>sg. DecodeSig X s = Some sg \<Longrightarrow> findIndex (SigVerify X sg h) ks = None"
      by (simp add: findIndex_None signedBy_def list_ex_iff)
    then have "validLoop X h (s # sigs) c ks = validLoop X h sigs c ks"
      by (simp add: ParseSignature_def split: option.splits)
    with False Cons.IH [of c ks] show ?thesis by simp
  qed
qed

lemma HasValidSignatures_one:
  "HasValidSignatures X h sigs 1 ks \<longleftrightarrow> list_ex (\<lambda>s. list_ex (signedBy X h s) ks) sigs"
  using validLoop_any [of 0 X h sigs ks] by (auto simp: HasValidSignatures_def)

lemma validLoop_acc: "validLoop X h sigs c ks = c + validLoop X h sigs 0 ks"
proof (induction sigs arbitrary: c ks)
  case Nil
  show ?case by simp
next
  case (Cons s sigs)
  show ?case
    using Cons.IH [of c ks] Cons.IH [of "c + 1"] Cons.IH [of "0 + 1"]
    by (simp split: option.splits del: One_nat_def)
qed

lemma set_slicesDelete:
  "distinct ks \<Longrightarrow> i < length ks \<Longrightarrow> set (slicesDelete ks i) = set ks - {ks ! i}"
proof -
  assume d: "distinct ks" and i: "i < length ks"
  have ks: "ks = take i ks @ ks ! i # drop (Suc i) ks"
    using i by (rule id_take_nth_drop)
  have "distinct (take i ks @ ks ! i # drop (Suc i) ks)" using d ks by simp
  then have "ks ! i \<notin> set (take i ks) \<and> ks ! i \<notin> set (drop (Suc i) ks)" by simp
  moreover have "set ks = set (take i ks) \<union> {ks ! i} \<union> set (drop (Suc i) ks)"
    using arg_cong [OF ks, of set] by simp
  ultimately show ?thesis by (auto simp: slicesDelete_def)
qed

lemma distinct_slicesDelete: "distinct ks \<Longrightarrow> distinct (slicesDelete ks i)"
proof -
  assume d: "distinct ks"
  have ks: "ks = take i ks @ drop i ks" by simp
  have sub: "set (drop (Suc i) ks) \<subseteq> set (drop i ks)"
    by (rule set_drop_subset_set_drop) simp
  have "distinct (take i ks @ drop i ks)" using d by simp
  then have "distinct (take i ks)" "distinct (drop i ks)" "set (take i ks) \<inter> set (drop i ks) = {}"
    by (simp_all only: distinct_append) 
  moreover have "distinct (drop (Suc i) ks)" using d by (rule distinct_drop)
  ultimately show ?thesis using sub unfolding slicesDelete_def distinct_append by blast
qed

lemma length_slicesDelete: "i < length ks \<Longrightarrow> length (slicesDelete ks i) = length ks - 1"
  by (auto simp: slicesDelete_def)

lemma validLoop_card:
  "distinct ks \<Longrightarrow> atMostOne X h sigs (set ks) \<Longrightarrow>
   min (validLoop X h sigs 0 ks) (length ks) =
   card {k \<in> set ks. \<exists>s \<in> set sigs. signedBy X h s k}"
proof (induction sigs arbitrary: ks)
  case Nil
  show ?case by simp
next
  case (Cons s sigs)
  have am: "atMostOne X h sigs (set ks)"
    using Cons.prems(2) by (simp add: atMostOne_def)
  show ?case
  proof (cases "list_ex (signedBy X h s) ks")
    case False
    then have "\<And>sg. DecodeSig X s = Some sg \<Longrightarrow> findIndex (SigVerify X sg h) ks = None"
      by (simp add: findIndex_None signedBy_def list_ex_iff)
    then have "validLoop X h (s # sigs) 0 ks = validLoop X h sigs 0 ks"
      by (simp add: ParseSignature_def split: option.splits)
    moreover have "{k \<in> set ks. \<exists>s' \<in> set (s # sigs). signedBy X h s' k}
        = {k \<in> set ks. \<exists>s' \<in> set sigs. signedBy X h s' k}"
      using False by (auto simp: list_ex_iff)
    ultimately show ?thesis using Cons.IH [OF Cons.prems(1) am] by simp
  next
    case True
    then obtain sg where sg: "DecodeSig X s = Some sg" "list_ex (SigVerify X sg h) ks"
      by (auto simp: signedBy_def list_ex_iff split: option.splits)
    then obtain i where i: "findIndex (SigVerify X sg h) ks = Some i"
      using findIndex_None [of "SigVerify X sg h" ks] by auto
    from findIndex_Some [OF i] have il: "i < length ks" and iv: "SigVerify X sg h (ks ! i)"
      by simp_all
    have k0: "signedBy X h s (ks ! i)" using sg(1) iv by (simp add: signedBy_def)
    have others: "\<And>k. k \<in> set ks \<Longrightarrow> k \<noteq> ks ! i \<Longrightarrow> \<not> signedBy X h s k"
    proof -
      fix k assume k: "k \<in> set ks" "k \<noteq> ks ! i"
      have "ks ! i \<in> set ks" using il by simp
      with Cons.prems(2) k(1) have "signedBy X h s k \<and> signedBy X h s (ks ! i) \<longrightarrow> k = ks ! i"
        unfolding atMostOne_def by simp
      with k0 k(2) show "\<not> signedBy X h s k" by blast
    qed
    show ?thesis
    proof (cases "length ks > 1")
      case True
      let ?ks' = "slicesDelete ks i"
      have d': "distinct ?ks'" using Cons.prems(1) by (rule distinct_slicesDelete)
      have set': "set ?ks' = set ks - {ks ! i}"
        using Cons.prems(1) il by (rule set_slicesDelete)
      have am': "atMostOne X h sigs (set ?ks')"
        using am by (simp add: atMostOne_def set')
      have v: "validLoop X h (s # sigs) 0 ks = 1 + validLoop X h sigs 0 ?ks'"
        using sg(1) i True validLoop_acc [of X h sigs "0 + 1" ?ks']
        by (simp add: ParseSignature_def del: One_nat_def)
      have S: "{k \<in> set ks. \<exists>s' \<in> set (s # sigs). signedBy X h s' k}
          = insert (ks ! i) {k \<in> set ?ks'. \<exists>s' \<in> set sigs. signedBy X h s' k}"
        using k0 others il by (auto simp: set')
      have notin: "ks ! i \<notin> {k \<in> set ?ks'. \<exists>s' \<in> set sigs. signedBy X h s' k}"
        by (simp add: set')
      have fin: "finite {k \<in> set ?ks'. \<exists>s' \<in> set sigs. signedBy X h s' k}" by simp
      have "card {k \<in> set ks. \<exists>s' \<in> set (s # sigs). signedBy X h s' k}
          = Suc (card {k \<in> set ?ks'. \<exists>s' \<in> set sigs. signedBy X h s' k})"
        unfolding S using fin notin by (rule card_insert_disjoint)
      also have "\<dots> = Suc (min (validLoop X h sigs 0 ?ks') (length ?ks'))"
        using Cons.IH [OF d' am'] by simp
      also have "\<dots> = min (validLoop X h (s # sigs) 0 ks) (length ks)"
        using v il by (simp add: length_slicesDelete)
      finally show ?thesis by simp
    next
      case False
      with il have one: "length ks = 1" by simp
      then have ks: "ks = [ks ! i]" using il
        by (cases ks) auto
      have v: "validLoop X h (s # sigs) 0 ks = 1 + validLoop X h sigs 0 ks"
        using sg(1) i False validLoop_acc [of X h sigs "0 + 1" ks]
        by (simp add: ParseSignature_def del: One_nat_def)
      have "{k \<in> set ks. \<exists>s' \<in> set (s # sigs). signedBy X h s' k} = {ks ! i}"
      proof -
        have "set ks = {ks ! i}" using arg_cong [OF ks, of set] by simp
        then show ?thesis using k0 by auto
      qed
      then show ?thesis using v one by simp
    qed
  qed
qed

lemma oneSigner_atMostOne:
  assumes "oneSigner X h sigs ks"
  shows "atMostOne X h sigs (set ks)"
  unfolding atMostOne_def
proof (intro ballI impI)
  fix s k1 k2
  assume s: "s \<in> set sigs" and k: "k1 \<in> set ks" "k2 \<in> set ks"
    and sb: "signedBy X h s k1 \<and> signedBy X h s k2"
  let ?f = "filter (signedBy X h s) (remdups ks)"
  from assms s have len: "length ?f \<le> 1"
    by (simp add: oneSigner_def list_all_iff)
  have "k1 \<in> set ?f" "k2 \<in> set ?f" using k sb by simp_all
  with len show "k1 = k2" by (cases ?f) auto
qed

lemma length_signers:
  "distinct ks \<Longrightarrow>
   length (signers X h sigs ks) = card {k \<in> set ks. \<exists>s \<in> set sigs. signedBy X h s k}"
proof -
  assume d: "distinct ks"
  have "distinct (signers X h sigs ks)" by (simp add: signers_def)
  then have "length (signers X h sigs ks) = card (set (signers X h sigs ks))"
    by (simp add: distinct_card)
  also have "set (signers X h sigs ks) = {k \<in> set ks. \<exists>s \<in> set sigs. signedBy X h s k}"
    by (auto simp: signers_def list_ex_iff)
  finally show ?thesis .
qed

lemma HasValidSignatures_signers:
  assumes "distinct ks" and "oneSigner X h sigs ks" and "n \<le> int (length ks)"
  shows "HasValidSignatures X h sigs n ks \<longleftrightarrow> n \<le> int (length (signers X h sigs ks))"
proof -
  have "min (validLoop X h sigs 0 ks) (length ks) = length (signers X h sigs ks)"
    using validLoop_card [OF assms(1) oneSigner_atMostOne [OF assms(2)]]
      length_signers [OF assms(1), of X h sigs] by simp
  then have "n \<le> int (length (signers X h sigs ks)) \<longleftrightarrow>
      n \<le> int (min (validLoop X h sigs 0 ks) (length ks))" by simp
  also have "\<dots> \<longleftrightarrow> n \<le> int (validLoop X h sigs 0 ks)"
    using assms(3) by auto
  finally show ?thesis by (simp add: HasValidSignatures_def)
qed

lemma Verify_primary_branch:
  assumes "ParseP2PKTags X (Tags (SData secret)) = Inr t"
    and "\<not> (Locktime t > 0 \<and> now > Locktime t)"
  shows "VerifyP2PKLockedProof X now prf secret =
     (case DecodePubKey X (Data (SData secret)) of
        None \<Rightarrow> Some InvalidPublicKey
      | Some pubkey \<Rightarrow>
          if NSigs t > 0 \<and> Pubkeys t = [] then Some EmptyPubkeysErr
          else if WitnessSigs X (Witness prf) = [] then Some InvalidWitness
          else if \<not> distinct (WitnessSigs X (Witness prf)) then Some DuplicateSignaturesErr
          else if \<not> HasValidSignatures X (Sum256 X (Secret prf)) (WitnessSigs X (Witness prf))
                      (if NSigs t > 0 then NSigs t else 1)
                      (if NSigs t > 0 then pubkey # Pubkeys t else [pubkey])
          then Some NotEnoughSignaturesErr
          else None)"
proof -
  have "(Locktime t > 0 \<and> now > Locktime t) = False" using assms(2) by simp
  then show ?thesis
    unfolding VerifyP2PKLockedProof_def Let_def assms(1)
    by (simp add: ParsePublicKey_def DuplicateSignatures_iff split: option.splits)
qed

lemma Verify_expired_branch:
  assumes "ParseP2PKTags X (Tags (SData secret)) = Inr t"
    and "Locktime t > 0" and "now > Locktime t"
  shows "VerifyP2PKLockedProof X now prf secret =
     (if Refund t = [] then None
      else if WitnessSigs X (Witness prf) = [] then Some InvalidWitness
      else if list_ex (\<lambda>s. list_ex (signedBy X (Sum256 X (Secret prf)) s) (Refund t))
                (WitnessSigs X (Witness prf))
      then None
      else Some NotEnoughSignaturesErr)"
proof -
  have "(Locktime t > 0 \<and> now > Locktime t) = True" using assms(2,3) by simp
  then show ?thesis
    unfolding VerifyP2PKLockedProof_def Let_def assms(1)
    by (simp add: HasValidSignatures_one)
qed

section \<open>Evaluation on the toy instance\<close>

lemmas toy_eval = toyX_def lockSecret_def spend_def hexDecodes_def isHexChar_def
  ParseP2PKTags_def parseTag_def tag_names ParseInt_def ParseUint_def isDigit_def digitVal_def
  ParsePublicKey_def zeroTags_def signers_def signedBy_def oneSigner_def

lemma parse_multisig:
  "ParseP2PKTags toyX [[''n_sigs'', ''2''], [''pubkeys'', ''b2'', ''c3'', ''d4'']] =
   Inr \<lparr>Sigflag = [], NSigs = 2, Pubkeys = [''b2'', ''c3'', ''d4''], Locktime = 0, Refund = []\<rparr>"
  by (simp add: toy_eval)

lemma parse_two_of_two:
  "ParseP2PKTags toyX [[''n_sigs'', ''2''], [''pubkeys'', ''b2'']] =
   Inr \<lparr>Sigflag = [], NSigs = 2, Pubkeys = [''b2''], Locktime = 0, Refund = []\<rparr>"
  by (simp add: toy_eval)

lemma parse_refund:
  "ParseP2PKTags toyX [[''locktime'', ''1000''], [''refund'', ''e5'']] =
   Inr \<lparr>Sigflag = [], NSigs = 0, Pubkeys = [], Locktime = 1000, Refund = [''e5'']\<rparr>"
  by (simp add: toy_eval)

lemma parse_locktime:
  "ParseP2PKTags toyX [[''locktime'', ''1000'']] =
   Inr \<lparr>Sigflag = [], NSigs = 0, Pubkeys = [], Locktime = 1000, Refund = []\<rparr>"
  by (simp add: toy_eval)

lemma parse_none:
  "ParseP2PKTags toyX [] =
   Inr \<lparr>Sigflag = [], NSigs = 0, Pubkeys = [], Locktime = 0, Refund = []\<rparr>"
  by (simp add: toy_eval)

lemmas toy_run = toyX_def lockSecret_def spend_def signers_def signedBy_def oneSigner_def
  hexDecodes_def isHexChar_def

section \<open>Properties of VerifyP2PKLockedProof\<close>

text \<open>
  C1, as the code has it. Let the tags parse, the locktime be absent or not expired and
  the data key decode. The keys that may sign are the data key and, when \<open>n_sigs\<close> is
  present, the \<open>pubkeys\<close>; the number required is \<open>n_sigs\<close>, or 1 when it is absent
  (then only the data key counts). Provided the pubkeys are not empty when \<open>n_sigs\<close> is
  present, the keys are pairwise distinct, no more signatures are required than there
  are keys, and no signature verifies under two of the keys: the proof is accepted iff
  the witness is not empty, holds no signature string twice, and at least the required
  number of distinct keys have a valid signature in it; the error is
  \<open>InvalidWitness\<close>, \<open>DuplicateSignaturesErr\<close> or \<open>NotEnoughSignaturesErr\<close>, in
  this order.
\<close>

theorem VerifyP2PK_primary:
  assumes "ParseP2PKTags X (Tags (SData secret)) = Inr t"
    and "\<not> (Locktime t > 0 \<and> now > Locktime t)"
    and "DecodePubKey X (Data (SData secret)) = Some dataKey"
    and "keys = (if NSigs t > 0 then dataKey # Pubkeys t else [dataKey])"
    and "required = (if NSigs t > 0 then NSigs t else 1)"
    and "NSigs t \<le> 0 \<or> Pubkeys t \<noteq> []"
    and "distinct keys"
    and "required \<le> int (length keys)"
    and "oneSigner X (Sum256 X (Secret prf)) (WitnessSigs X (Witness prf)) keys"
  shows "VerifyP2PKLockedProof X now prf secret =
     (if WitnessSigs X (Witness prf) = [] then Some InvalidWitness
      else if \<not> distinct (WitnessSigs X (Witness prf)) then Some DuplicateSignaturesErr
      else if int (length (signers X (Sum256 X (Secret prf)) (WitnessSigs X (Witness prf)) keys))
                < required
      then Some NotEnoughSignaturesErr
      else None)"
proof -
  have hv: "HasValidSignatures X (Sum256 X (Secret prf)) (WitnessSigs X (Witness prf)) required keys
      \<longleftrightarrow> \<not> int (length (signers X (Sum256 X (Secret prf))
            (WitnessSigs X (Witness prf)) keys)) < required"
    using HasValidSignatures_signers [OF assms(7,9,8)] by (simp add: not_less)
  have br: "(NSigs t > 0 \<and> Pubkeys t = []) = False" using assms(6) by auto
  show ?thesis
    unfolding Verify_primary_branch [OF assms(1,2)] assms(3) br
    using hv unfolding assms(4,5) by simp
qed

theorem VerifyP2PK_primary_witness:
  "ParseP2PKTags toyX (Tags (SData (lockSecret [[''n_sigs'', ''2''], [''pubkeys'', ''b2'', ''c3'', ''d4'']])))
     = Inr \<lparr>Sigflag = [], NSigs = 2, Pubkeys = [''b2'', ''c3'', ''d4''], Locktime = 0, Refund = []\<rparr>
   \<and> DecodePubKey toyX ''a1'' = Some ''a1''
   \<and> distinct [''a1'', ''b2'', ''c3'', ''d4'']
   \<and> oneSigner toyX ''s'' [''c3:s:1'', ''b2:s:1''] [''a1'', ''b2'', ''c3'', ''d4'']
   \<and> signers toyX ''s'' [''c3:s:1'', ''b2:s:1''] [''a1'', ''b2'', ''c3'', ''d4''] = [''b2'', ''c3'']
   \<and> VerifyP2PKLockedProof toyX 500 (spend ''c3:s:1;b2:s:1;'')
        (lockSecret [[''n_sigs'', ''2''], [''pubkeys'', ''b2'', ''c3'', ''d4'']]) = None"
  using VerifyP2PK_primary [of toyX "lockSecret [[''n_sigs'', ''2''], [''pubkeys'', ''b2'', ''c3'', ''d4'']]"
      "\<lparr>Sigflag = [], NSigs = 2, Pubkeys = [''b2'', ''c3'', ''d4''], Locktime = 0, Refund = []\<rparr>"
      500 "''a1''" "[''a1'', ''b2'', ''c3'', ''d4'']" 2 "spend ''c3:s:1;b2:s:1;''"]
    parse_multisig
  by (simp add: toyX_def lockSecret_def spend_def signers_def signedBy_def oneSigner_def
      hexDecodes_def isHexChar_def)

text \<open>
  C1 as stated fails: with \<open>n_sigs = 2\<close> and keys \<open>a1\<close>, \<open>b2\<close>, a witness with valid
  signatures of both keys is refused when it repeats a signature string; an empty
  witness is refused with \<open>InvalidWitness\<close>, not \<open>NotEnoughSignaturesErr\<close>; and
  without \<open>n_sigs\<close> a signature by a key of \<open>pubkeys\<close> is not accepted.
\<close>

theorem VerifyP2PK_claim_counterexample:
  "ParseP2PKTags toyX (Tags (SData (lockSecret [[''n_sigs'', ''2''], [''pubkeys'', ''b2'']])))
     = Inr \<lparr>Sigflag = [], NSigs = 2, Pubkeys = [''b2''], Locktime = 0, Refund = []\<rparr>
   \<and> DecodePubKey toyX (Data (SData (lockSecret [[''n_sigs'', ''2''], [''pubkeys'', ''b2'']])))
     = Some ''a1''
   \<and> WitnessSigs toyX (Witness (spend ''a1:s:1;b2:s:1;a1:s:1;''))
     = [''a1:s:1'', ''b2:s:1'', ''a1:s:1'']
   \<and> signers toyX (Sum256 toyX (Secret (spend ''a1:s:1;b2:s:1;a1:s:1;'')))
        [''a1:s:1'', ''b2:s:1'', ''a1:s:1''] [''a1'', ''b2''] = [''a1'', ''b2'']
   \<and> VerifyP2PKLockedProof toyX 500 (spend ''a1:s:1;b2:s:1;a1:s:1;'')
        (lockSecret [[''n_sigs'', ''2''], [''pubkeys'', ''b2'']]) = Some DuplicateSignaturesErr
   \<and> VerifyP2PKLockedProof toyX 500 (spend [])
        (lockSecret [[''n_sigs'', ''2''], [''pubkeys'', ''b2'']]) = Some InvalidWitness
   \<and> ParseP2PKTags toyX (Tags (SData (lockSecret [[''pubkeys'', ''b2'']])))
     = Inr \<lparr>Sigflag = [], NSigs = 0, Pubkeys = [''b2''], Locktime = 0, Refund = []\<rparr>
   \<and> signers toyX (Sum256 toyX (Secret (spend ''b2:s:1;''))) [''b2:s:1''] [''a1'', ''b2''] = [''b2'']
   \<and> VerifyP2PKLockedProof toyX 500 (spend ''b2:s:1;'') (lockSecret [[''pubkeys'', ''b2'']])
     = Some NotEnoughSignaturesErr"
  by (simp add: toy_eval VerifyP2PKLockedProof_def HasValidSignatures_def
      DuplicateSignatures_def ParseSignature_def slicesDelete_def)

text \<open>
  Outside these conditions: the last key left in
  \<^verbatim>\<open>pubkeysCopy\<close> is not deleted, so it can be counted again. Three signatures are
  found with two keys, and two with the data key repeated in \<open>pubkeys\<close>.
\<close>

lemma VerifyP2PK_last_key_repeats:
  "signers toyX ''s'' [''a1:s:1'', ''b2:s:1'', ''b2:s:2''] [''a1'', ''b2''] = [''a1'', ''b2'']
   \<and> VerifyP2PKLockedProof toyX 500 (spend ''a1:s:1;b2:s:1;b2:s:2;'')
        (lockSecret [[''n_sigs'', ''3''], [''pubkeys'', ''b2'']]) = None
   \<and> VerifyP2PKLockedProof toyX 500 (spend ''a1:s:1;a1:s:2;'')
        (lockSecret [[''n_sigs'', ''2''], [''pubkeys'', ''a1'']]) = None"
  by (simp add: toy_eval VerifyP2PKLockedProof_def HasValidSignatures_def
      DuplicateSignatures_def ParseSignature_def slicesDelete_def)

section \<open>Locktime and duplicate signatures\<close>

lemma Verify_parse_error:
  "ParseP2PKTags X (Tags (SData secret)) = Inl e \<Longrightarrow> VerifyP2PKLockedProof X now prf secret = Some e"
  by (simp add: VerifyP2PKLockedProof_def)

lemma Verify_primary_signers:
  assumes "ParseP2PKTags X (Tags (SData secret)) = Inr t"
    and "\<not> (Locktime t > 0 \<and> now > Locktime t)"
    and "DecodePubKey X (Data (SData secret)) = Some dataKey"
    and "NSigs t \<le> 0 \<or> Pubkeys t \<noteq> []"
    and "distinct (signingKeys t dataKey)"
    and "signaturesNeeded t \<le> int (length (signingKeys t dataKey))"
    and "oneSigner X (Sum256 X (Secret prf)) (WitnessSigs X (Witness prf)) (signingKeys t dataKey)"
  shows "VerifyP2PKLockedProof X now prf secret =
     (if WitnessSigs X (Witness prf) = [] then Some InvalidWitness
      else if \<not> distinct (WitnessSigs X (Witness prf)) then Some DuplicateSignaturesErr
      else if int (length (signers X (Sum256 X (Secret prf)) (WitnessSigs X (Witness prf))
                     (signingKeys t dataKey))) < signaturesNeeded t
      then Some NotEnoughSignaturesErr
      else None)"
proof -
  have hv: "HasValidSignatures X (Sum256 X (Secret prf)) (WitnessSigs X (Witness prf))
        (signaturesNeeded t) (signingKeys t dataKey)
      \<longleftrightarrow> \<not> int (length (signers X (Sum256 X (Secret prf))
            (WitnessSigs X (Witness prf)) (signingKeys t dataKey))) < signaturesNeeded t"
    using HasValidSignatures_signers [OF assms(5,7,6)] by (simp add: not_less)
  have br: "(NSigs t > 0 \<and> Pubkeys t = []) = False" using assms(4) by auto
  show ?thesis
    unfolding Verify_primary_branch [OF assms(1,2)] assms(3) br
    using hv unfolding signingKeys_def signaturesNeeded_def by simp
qed

lemma parse_bad_pubkey:
  "ParseP2PKTags toyX [[''locktime'', ''1000''], [''pubkeys'', ''zz'']] = Inl InvalidPublicKey"
  by (simp add: toy_eval)

text \<open>
  C2, as the code has it. Tags that do not parse give the parse error, whatever the
  locktime. For tags that parse with a locktime \<open>L > 0\<close>: after \<open>L\<close> the proof is
  accepted whatever the witness when there is no refund key; otherwise it is accepted
  iff some signature of the witness is valid for one of the refund keys, with
  \<open>InvalidWitness\<close> for an empty witness and \<open>NotEnoughSignaturesErr\<close> when no
  signature verifies. Up to \<open>L\<close> the primary condition decides and the refund keys
  play no part: the data key must decode, \<open>n_sigs\<close> needs \<open>pubkeys\<close>, the witness
  must be non-empty and free of duplicates, and \<open>HasValidSignatures\<close> must find the
  needed number of signatures among the signing keys; for distinct signing keys, no more
  needed than there are, and signatures that verify under one key at most, this is: at
  least the needed number of distinct signing keys have a valid signature in the
  witness.
\<close>

theorem VerifyP2PK_locktime:
  "(ParseP2PKTags X (Tags (SData secret)) = Inl e \<longrightarrow>
      VerifyP2PKLockedProof X now prf secret = Some e)
   \<and> (ParseP2PKTags X (Tags (SData secret)) = Inr t \<and> 0 < Locktime t \<and> Locktime t < now \<longrightarrow>
        VerifyP2PKLockedProof X now prf secret =
          (if Refund t = [] then None
           else if WitnessSigs X (Witness prf) = [] then Some InvalidWitness
           else if list_ex (\<lambda>s. list_ex (signedBy X (Sum256 X (Secret prf)) s) (Refund t))
                     (WitnessSigs X (Witness prf))
           then None
           else Some NotEnoughSignaturesErr))
   \<and> (ParseP2PKTags X (Tags (SData secret)) = Inr t \<and> 0 < Locktime t \<and> now \<le> Locktime t \<longrightarrow>
        VerifyP2PKLockedProof X now prf secret =
          (case DecodePubKey X (Data (SData secret)) of
             None \<Rightarrow> Some InvalidPublicKey
           | Some dataKey \<Rightarrow>
               if NSigs t > 0 \<and> Pubkeys t = [] then Some EmptyPubkeysErr
               else if WitnessSigs X (Witness prf) = [] then Some InvalidWitness
               else if \<not> distinct (WitnessSigs X (Witness prf))
               then Some DuplicateSignaturesErr
               else if HasValidSignatures X (Sum256 X (Secret prf)) (WitnessSigs X (Witness prf))
                         (signaturesNeeded t) (signingKeys t dataKey)
               then None
               else Some NotEnoughSignaturesErr))
   \<and> (ParseP2PKTags X (Tags (SData secret)) = Inr t \<and> 0 < Locktime t \<and> now \<le> Locktime t
        \<and> DecodePubKey X (Data (SData secret)) = Some dataKey
        \<and> (NSigs t \<le> 0 \<or> Pubkeys t \<noteq> [])
        \<and> distinct (signingKeys t dataKey)
        \<and> signaturesNeeded t \<le> int (length (signingKeys t dataKey))
        \<and> oneSigner X (Sum256 X (Secret prf)) (WitnessSigs X (Witness prf))
             (signingKeys t dataKey) \<longrightarrow>
        VerifyP2PKLockedProof X now prf secret =
          (if WitnessSigs X (Witness prf) = [] then Some InvalidWitness
           else if \<not> distinct (WitnessSigs X (Witness prf)) then Some DuplicateSignaturesErr
           else if int (length (signers X (Sum256 X (Secret prf)) (WitnessSigs X (Witness prf))
                          (signingKeys t dataKey))) < signaturesNeeded t
           then Some NotEnoughSignaturesErr
           else None))"
proof (intro conjI impI)
  assume "ParseP2PKTags X (Tags (SData secret)) = Inl e"
  then show "VerifyP2PKLockedProof X now prf secret = Some e" by (rule Verify_parse_error)
next
  assume a: "ParseP2PKTags X (Tags (SData secret)) = Inr t \<and> 0 < Locktime t \<and> Locktime t < now"
  then have "ParseP2PKTags X (Tags (SData secret)) = Inr t" "Locktime t > 0" "now > Locktime t"
    by simp_all
  then show "VerifyP2PKLockedProof X now prf secret =
          (if Refund t = [] then None
           else if WitnessSigs X (Witness prf) = [] then Some InvalidWitness
           else if list_ex (\<lambda>s. list_ex (signedBy X (Sum256 X (Secret prf)) s) (Refund t))
                     (WitnessSigs X (Witness prf))
           then None
           else Some NotEnoughSignaturesErr)"
    by (rule Verify_expired_branch)
next
  assume a: "ParseP2PKTags X (Tags (SData secret)) = Inr t \<and> 0 < Locktime t \<and> now \<le> Locktime t"
  then have p: "ParseP2PKTags X (Tags (SData secret)) = Inr t"
    and n: "\<not> (Locktime t > 0 \<and> now > Locktime t)" by simp_all
  show "VerifyP2PKLockedProof X now prf secret =
          (case DecodePubKey X (Data (SData secret)) of
             None \<Rightarrow> Some InvalidPublicKey
           | Some dataKey \<Rightarrow>
               if NSigs t > 0 \<and> Pubkeys t = [] then Some EmptyPubkeysErr
               else if WitnessSigs X (Witness prf) = [] then Some InvalidWitness
               else if \<not> distinct (WitnessSigs X (Witness prf))
               then Some DuplicateSignaturesErr
               else if HasValidSignatures X (Sum256 X (Secret prf)) (WitnessSigs X (Witness prf))
                         (signaturesNeeded t) (signingKeys t dataKey)
               then None
               else Some NotEnoughSignaturesErr)"
    unfolding Verify_primary_branch [OF p n] signingKeys_def signaturesNeeded_def
    by (simp split: option.splits)
next
  assume a: "ParseP2PKTags X (Tags (SData secret)) = Inr t \<and> 0 < Locktime t \<and> now \<le> Locktime t
        \<and> DecodePubKey X (Data (SData secret)) = Some dataKey
        \<and> (NSigs t \<le> 0 \<or> Pubkeys t \<noteq> [])
        \<and> distinct (signingKeys t dataKey)
        \<and> signaturesNeeded t \<le> int (length (signingKeys t dataKey))
        \<and> oneSigner X (Sum256 X (Secret prf)) (WitnessSigs X (Witness prf))
             (signingKeys t dataKey)"
  then have n: "\<not> (Locktime t > 0 \<and> now > Locktime t)" by simp
  from a show "VerifyP2PKLockedProof X now prf secret =
          (if WitnessSigs X (Witness prf) = [] then Some InvalidWitness
           else if \<not> distinct (WitnessSigs X (Witness prf)) then Some DuplicateSignaturesErr
           else if int (length (signers X (Sum256 X (Secret prf)) (WitnessSigs X (Witness prf))
                          (signingKeys t dataKey))) < signaturesNeeded t
           then Some NotEnoughSignaturesErr
           else None)"
    by (intro Verify_primary_signers [OF _ n]) simp_all
qed

theorem VerifyP2PK_locktime_witness:
  "ParseP2PKTags toyX (Tags (SData (lockSecret [[''locktime'', ''1000''], [''refund'', ''e5'']])))
     = Inr \<lparr>Sigflag = [], NSigs = 0, Pubkeys = [], Locktime = 1000, Refund = [''e5'']\<rparr>
   \<and> VerifyP2PKLockedProof toyX 2000 (spend ''e5:s:1;'')
        (lockSecret [[''locktime'', ''1000''], [''refund'', ''e5'']]) = None
   \<and> VerifyP2PKLockedProof toyX 2000 (spend ''a1:s:1;'')
        (lockSecret [[''locktime'', ''1000''], [''refund'', ''e5'']]) = Some NotEnoughSignaturesErr
   \<and> VerifyP2PKLockedProof toyX 500 (spend ''a1:s:1;'')
        (lockSecret [[''locktime'', ''1000''], [''refund'', ''e5'']]) = None
   \<and> VerifyP2PKLockedProof toyX 500 (spend ''e5:s:1;'')
        (lockSecret [[''locktime'', ''1000''], [''refund'', ''e5'']]) = Some NotEnoughSignaturesErr
   \<and> VerifyP2PKLockedProof toyX 2000 (spend ''a1:s:1;'')
        (lockSecret [[''locktime'', ''1000''], [''pubkeys'', ''zz'']]) = Some InvalidPublicKey"
proof -
  let ?sec = "lockSecret [[''locktime'', ''1000''], [''refund'', ''e5'']]"
  let ?t = "\<lparr>Sigflag = [], NSigs = 0, Pubkeys = [], Locktime = 1000, Refund = [''e5'']\<rparr>
            :: string P2PKTags"
  have p: "ParseP2PKTags toyX (Tags (SData ?sec)) = Inr ?t"
    using parse_refund by (simp add: lockSecret_def)
  have 1: "VerifyP2PKLockedProof toyX 2000 (spend ''e5:s:1;'') ?sec = None"
    using VerifyP2PK_locktime [of toyX ?sec InvalidTagErr 2000 "spend ''e5:s:1;''" ?t "''a1''"] p
    by (simp add: toy_run)
  have 2: "VerifyP2PKLockedProof toyX 2000 (spend ''a1:s:1;'') ?sec = Some NotEnoughSignaturesErr"
    using VerifyP2PK_locktime [of toyX ?sec InvalidTagErr 2000 "spend ''a1:s:1;''" ?t "''a1''"] p
    by (simp add: toy_run)
  have 3: "VerifyP2PKLockedProof toyX 500 (spend ''a1:s:1;'') ?sec = None"
    using VerifyP2PK_locktime [of toyX ?sec InvalidTagErr 500 "spend ''a1:s:1;''" ?t "''a1''"] p
    by (simp add: toy_run signingKeys_def signaturesNeeded_def HasValidSignatures_def
        ParseSignature_def slicesDelete_def)
  have 4: "VerifyP2PKLockedProof toyX 500 (spend ''e5:s:1;'') ?sec = Some NotEnoughSignaturesErr"
    using VerifyP2PK_locktime [of toyX ?sec InvalidTagErr 500 "spend ''e5:s:1;''" ?t "''a1''"] p
    by (simp add: toy_run signingKeys_def signaturesNeeded_def HasValidSignatures_def
        ParseSignature_def slicesDelete_def)
  have 5: "VerifyP2PKLockedProof toyX 2000 (spend ''a1:s:1;'')
        (lockSecret [[''locktime'', ''1000''], [''pubkeys'', ''zz'']]) = Some InvalidPublicKey"
    using VerifyP2PK_locktime [of toyX "lockSecret [[''locktime'', ''1000''], [''pubkeys'', ''zz'']]"
        InvalidPublicKey 2000 "spend ''a1:s:1;''" ?t "''a1''"] parse_bad_pubkey
    by (simp add: lockSecret_def)
  from p 1 2 3 4 5 show ?thesis by blast
qed

text \<open>
  C2 as stated fails: with a locktime that has expired and no refund key, a proof whose
  tags hold a public key that does not decode is refused with the parse error.
\<close>

theorem VerifyP2PK_locktime_counterexample:
  "Tags (SData (lockSecret [[''locktime'', ''1000''], [''pubkeys'', ''zz'']]))
     = [[''locktime'', ''1000''], [''pubkeys'', ''zz'']]
   \<and> VerifyP2PKLockedProof toyX 2000 (spend ''a1:s:1;'')
        (lockSecret [[''locktime'', ''1000''], [''pubkeys'', ''zz'']]) = Some InvalidPublicKey"
  by (simp add: VerifyP2PKLockedProof_def parse_bad_pubkey lockSecret_def)

text \<open>
  C3, as the code has it, for a witness that holds a signature string twice. Tags that do
  not parse give the parse error. With the locktime absent or not expired the proof is
  refused: with \<open>DuplicateSignaturesErr\<close>, unless the data key does not decode or
  \<open>n_sigs\<close> comes with no \<open>pubkeys\<close>, which are reported first. With the locktime
  expired and no refund key the proof is accepted, as any witness is.
\<close>

theorem VerifyP2PK_duplicates:
  "(ParseP2PKTags X (Tags (SData secret)) = Inl e \<longrightarrow>
      VerifyP2PKLockedProof X now prf secret = Some e)
   \<and> (ParseP2PKTags X (Tags (SData secret)) = Inr t
        \<and> \<not> (Locktime t > 0 \<and> now > Locktime t)
        \<and> \<not> distinct (WitnessSigs X (Witness prf)) \<longrightarrow>
        VerifyP2PKLockedProof X now prf secret =
          (case DecodePubKey X (Data (SData secret)) of
             None \<Rightarrow> Some InvalidPublicKey
           | Some dataKey \<Rightarrow>
               if NSigs t > 0 \<and> Pubkeys t = [] then Some EmptyPubkeysErr
               else Some DuplicateSignaturesErr))
   \<and> (ParseP2PKTags X (Tags (SData secret)) = Inr t
        \<and> Locktime t > 0 \<and> now > Locktime t \<and> Refund t = [] \<longrightarrow>
        VerifyP2PKLockedProof X now prf secret = None)"
proof (intro conjI impI)
  assume "ParseP2PKTags X (Tags (SData secret)) = Inl e"
  then show "VerifyP2PKLockedProof X now prf secret = Some e" by (rule Verify_parse_error)
next
  assume a: "ParseP2PKTags X (Tags (SData secret)) = Inr t
        \<and> \<not> (Locktime t > 0 \<and> now > Locktime t)
        \<and> \<not> distinct (WitnessSigs X (Witness prf))"
  then have p: "ParseP2PKTags X (Tags (SData secret)) = Inr t"
    and n: "\<not> (Locktime t > 0 \<and> now > Locktime t)"
    and d: "\<not> distinct (WitnessSigs X (Witness prf))" by simp_all
  have "WitnessSigs X (Witness prf) \<noteq> []" using d by auto
  then show "VerifyP2PKLockedProof X now prf secret =
          (case DecodePubKey X (Data (SData secret)) of
             None \<Rightarrow> Some InvalidPublicKey
           | Some dataKey \<Rightarrow>
               if NSigs t > 0 \<and> Pubkeys t = [] then Some EmptyPubkeysErr
               else Some DuplicateSignaturesErr)"
    unfolding Verify_primary_branch [OF p n]
    using d by (simp split: option.splits)
next
  assume a: "ParseP2PKTags X (Tags (SData secret)) = Inr t
        \<and> Locktime t > 0 \<and> now > Locktime t \<and> Refund t = []"
  then have "ParseP2PKTags X (Tags (SData secret)) = Inr t" "Locktime t > 0" "now > Locktime t"
    by simp_all
  from Verify_expired_branch [OF this] a show "VerifyP2PKLockedProof X now prf secret = None"
    by simp
qed

theorem VerifyP2PK_duplicates_witness:
  "ParseP2PKTags toyX (Tags (SData (lockSecret [[''n_sigs'', ''2''], [''pubkeys'', ''b2'']])))
     = Inr \<lparr>Sigflag = [], NSigs = 2, Pubkeys = [''b2''], Locktime = 0, Refund = []\<rparr>
   \<and> \<not> distinct (WitnessSigs toyX (Witness (spend ''a1:s:1;b2:s:1;a1:s:1;'')))
   \<and> VerifyP2PKLockedProof toyX 500 (spend ''a1:s:1;b2:s:1;a1:s:1;'')
        (lockSecret [[''n_sigs'', ''2''], [''pubkeys'', ''b2'']]) = Some DuplicateSignaturesErr
   \<and> ParseP2PKTags toyX (Tags (SData (lockSecret [[''locktime'', ''1000'']])))
     = Inr \<lparr>Sigflag = [], NSigs = 0, Pubkeys = [], Locktime = 1000, Refund = []\<rparr>
   \<and> \<not> distinct (WitnessSigs toyX (Witness (spend ''a1:s:1;a1:s:1;'')))
   \<and> VerifyP2PKLockedProof toyX 2000 (spend ''a1:s:1;a1:s:1;'')
        (lockSecret [[''locktime'', ''1000'']]) = None"
proof -
  let ?t2 = "\<lparr>Sigflag = [], NSigs = 2, Pubkeys = [''b2''], Locktime = 0, Refund = []\<rparr>
             :: string P2PKTags"
  let ?tl = "\<lparr>Sigflag = [], NSigs = 0, Pubkeys = [], Locktime = 1000, Refund = []\<rparr>
             :: string P2PKTags"
  have p2: "ParseP2PKTags toyX (Tags (SData (lockSecret [[''n_sigs'', ''2''], [''pubkeys'', ''b2'']])))
      = Inr ?t2"
    using parse_two_of_two by (simp add: lockSecret_def)
  have pl: "ParseP2PKTags toyX (Tags (SData (lockSecret [[''locktime'', ''1000'']]))) = Inr ?tl"
    using parse_locktime by (simp add: lockSecret_def)
  have d1: "\<not> distinct (WitnessSigs toyX (Witness (spend ''a1:s:1;b2:s:1;a1:s:1;'')))"
    and d2: "\<not> distinct (WitnessSigs toyX (Witness (spend ''a1:s:1;a1:s:1;'')))"
    by (simp_all add: toy_run)
  have 1: "VerifyP2PKLockedProof toyX 500 (spend ''a1:s:1;b2:s:1;a1:s:1;'')
        (lockSecret [[''n_sigs'', ''2''], [''pubkeys'', ''b2'']]) = Some DuplicateSignaturesErr"
    using VerifyP2PK_duplicates [of toyX "lockSecret [[''n_sigs'', ''2''], [''pubkeys'', ''b2'']]"
        InvalidTagErr 500 "spend ''a1:s:1;b2:s:1;a1:s:1;''" ?t2] p2 d1
    by (simp add: toyX_def lockSecret_def hexDecodes_def isHexChar_def)
  have 2: "VerifyP2PKLockedProof toyX 2000 (spend ''a1:s:1;a1:s:1;'')
        (lockSecret [[''locktime'', ''1000'']]) = None"
    using VerifyP2PK_duplicates [of toyX "lockSecret [[''locktime'', ''1000'']]"
        InvalidTagErr 2000 "spend ''a1:s:1;a1:s:1;''" ?tl] pl
    by simp
  from p2 pl d1 d2 1 2 show ?thesis by blast
qed

text \<open>
  C3 as stated fails after the locktime with no refund key: anyone can spend, and a
  witness with duplicates is accepted like any other.
\<close>

theorem VerifyP2PK_expired_counterexample:
  "\<not> distinct (WitnessSigs toyX (Witness (spend ''x;x;'')))
   \<and> VerifyP2PKLockedProof toyX 2000 (spend ''x;x;'') (lockSecret [[''locktime'', ''1000'']])
     = None"
  by (simp add: toy_eval VerifyP2PKLockedProof_def)

text \<open>
  Not covered above: after the locktime with refund keys, the branch has no check for
  duplicates, and a witness that repeats one valid refund signature is accepted.
\<close>

lemma VerifyP2PK_expired_refund_repeats:
  "VerifyP2PKLockedProof toyX 2000 (spend ''e5:s:1;e5:s:1;'')
     (lockSecret [[''locktime'', ''1000''], [''refund'', ''e5'']]) = None"
  by (simp add: toy_eval VerifyP2PKLockedProof_def HasValidSignatures_def ParseSignature_def
      slicesDelete_def)

section \<open>Serializing and parsing tags\<close>

lemma digitChar_digit: "d < 10 \<Longrightarrow> isDigit (digitChar d) \<and> digitVal (digitChar d) = d"
  by (simp add: isDigit_def digitVal_def digitChar_def)

lemma digitChar_not_sign: "d < 10 \<Longrightarrow> digitChar d \<noteq> CHR ''+'' \<and> digitChar d \<noteq> CHR ''-''"
proof -
  assume d: "d < 10"
  have v: "(of_char (digitChar d) :: nat) = 48 + d" using d by (simp add: digitChar_def)
  have "digitChar d = CHR ''+'' \<Longrightarrow> False"
  proof -
    assume "digitChar d = CHR ''+''"
    then have "(of_char (digitChar d) :: nat) = of_char CHR ''+''" by simp
    with v show False by simp
  qed
  moreover have "digitChar d = CHR ''-'' \<Longrightarrow> False"
  proof -
    assume "digitChar d = CHR ''-''"
    then have "(of_char (digitChar d) :: nat) = of_char CHR ''-''" by simp
    with v show False by simp
  qed
  ultimately show ?thesis by blast
qed

lemma parseUintAcc_append:
  "parseUintAcc acc (xs @ ys) =
     (case parseUintAcc acc xs of None \<Rightarrow> None | Some a \<Rightarrow> parseUintAcc a ys)"
  by (induction xs arbitrary: acc) auto

lemma parseUintAcc_digitsOf: "parseUintAcc 0 (digitsOf n) = Some n"
proof (induction n rule: digitsOf.induct)
  case (1 n)
  show ?case
  proof (cases "n < 10")
    case True
    then show ?thesis
      using digitChar_digit [of n] by (subst digitsOf.simps) simp
  next
    case False
    have m: "n mod 10 < 10" by simp
    have "parseUintAcc 0 (digitsOf n) =
        parseUintAcc 0 (digitsOf (n div 10) @ [digitChar (n mod 10)])"
      using False by (subst digitsOf.simps) simp
    also have "\<dots> = parseUintAcc (n div 10) [digitChar (n mod 10)]"
      using 1 False by (simp add: parseUintAcc_append)
    also have "\<dots> = Some (n div 10 * 10 + n mod 10)"
      using digitChar_digit [OF m] by simp
    finally show ?thesis by simp
  qed
qed

lemma digitsOf_hd: "\<exists>d cs. d < 10 \<and> digitsOf n = digitChar d # cs"
proof (induction n rule: digitsOf.induct)
  case (1 n)
  show ?case
  proof (cases "n < 10")
    case True
    then show ?thesis by (subst digitsOf.simps) auto
  next
    case False
    with 1 obtain d cs where "d < 10" "digitsOf (n div 10) = digitChar d # cs" by blast
    with False show ?thesis by (subst digitsOf.simps) auto
  qed
qed

lemma ParseInt_FormatInt:
  assumes "0 \<le> i" and "i < 2 ^ (bitSize - 1)"
  shows "ParseInt (FormatInt i) bitSize = Some i"
proof -
  obtain d cs where d: "d < 10" and ds: "digitsOf (nat i) = digitChar d # cs"
    using digitsOf_hd by blast
  have ne: "digitsOf (nat i) \<noteq> []" using ds by simp
  have p: "ParseUint (digitsOf (nat i)) = Some (nat i)"
    using ne by (simp only: ParseUint_def parseUintAcc_digitsOf if_False)
  have lt: "nat i < 2 ^ (bitSize - 1)"
    using assms by (simp add: nat_less_iff)
  have "ParseInt (digitChar d # cs) bitSize = Some i"
    using digitChar_not_sign [OF d] p lt assms(1) unfolding ds
    by (simp add: ParseInt_def Let_def not_le)
  then show ?thesis using assms(1) ds by (simp add: FormatInt_def)
qed

lemma parseKeys_roundtrip:
  "list_all (keyRoundtrip X) ks \<Longrightarrow>
   \<exists>ks'. parseKeys X (map (EncodePubKey X) ks) = Inr ks'
      \<and> map (EncodePubKey X) ks' = map (EncodePubKey X) ks"
proof (induction ks)
  case Nil
  show ?case by simp
next
  case (Cons k ks)
  from Cons.prems obtain k' where k': "DecodePubKey X (EncodePubKey X k) = Some k'"
      "EncodePubKey X k' = EncodePubKey X k"
    by (auto simp: keyRoundtrip_def split: option.splits)
  from Cons obtain ks' where ks': "parseKeys X (map (EncodePubKey X) ks) = Inr ks'"
      "map (EncodePubKey X) ks' = map (EncodePubKey X) ks"
    by auto
  show ?case
    using k' ks' by (simp add: ParsePublicKey_def)
qed

lemma parseTagsLoop_append:
  "parseTagsLoop X u (xs @ ys) =
     (case parseTagsLoop X u xs of Inl e \<Rightarrow> Inl e | Inr u' \<Rightarrow> parseTagsLoop X u' ys)"
  by (induction xs arbitrary: u) (auto split: sum.splits)

lemma piece_sigflag:
  assumes "Sigflag t = [] \<or> Sigflag t = SIGALL" and "Sigflag u = []"
  shows "parseTagsLoop X u (if Sigflag t = SIGALL then [[SIGFLAG, SIGALL]] else []) =
         Inr (u\<lparr>Sigflag := Sigflag t\<rparr>)"
proof (cases "Sigflag t = SIGALL")
  case True
  then show ?thesis by (simp add: parseTag_def)
next
  case False
  with assms have "Sigflag t = Sigflag u" by simp
  then show ?thesis using False by simp
qed

lemma piece_nsigs:
  assumes "0 \<le> NSigs t" and "NSigs t \<le> 127" and "NSigs u = 0"
  shows "parseTagsLoop X u (if NSigs t > 0 then [[NSIGS, FormatInt (NSigs t)]] else []) =
         Inr (u\<lparr>NSigs := NSigs t\<rparr>)"
proof (cases "NSigs t > 0")
  case True
  have "ParseInt (FormatInt (NSigs t)) 8 = Some (NSigs t)"
    using assms(1,2) by (intro ParseInt_FormatInt) simp_all
  then show ?thesis using True assms(1)
    by (simp add: parseTag_def NSIGS_def SIGFLAG_def)
next
  case False
  with assms have "NSigs t = NSigs u" by simp
  then show ?thesis using False by simp
qed

lemma piece_locktime:
  assumes "0 \<le> Locktime t" and "Locktime t < 2 ^ 63" and "Locktime u = 0"
  shows "parseTagsLoop X u (if Locktime t > 0 then [[LOCKTIME, FormatInt (Locktime t)]] else []) =
         Inr (u\<lparr>Locktime := Locktime t\<rparr>)"
proof (cases "Locktime t > 0")
  case True
  have "ParseInt (FormatInt (Locktime t)) 64 = Some (Locktime t)"
    using assms(1,2) by (intro ParseInt_FormatInt) simp_all
  then show ?thesis using True
    by (simp add: parseTag_def NSIGS_def SIGFLAG_def LOCKTIME_def PUBKEYS_def)
next
  case False
  with assms have "Locktime t = Locktime u" by simp
  then show ?thesis using False by simp
qed

lemma piece_pubkeys:
  assumes "list_all (keyRoundtrip X) ks" and "Pubkeys u = []"
  shows "\<exists>ks'. parseTagsLoop X u (if length ks > 0 then [PUBKEYS # map (EncodePubKey X) ks] else [])
            = Inr (u\<lparr>Pubkeys := ks'\<rparr>)
         \<and> map (EncodePubKey X) ks' = map (EncodePubKey X) ks"
proof (cases ks)
  case Nil
  have "u\<lparr>Pubkeys := []\<rparr> = u" using assms(2) by simp
  then show ?thesis using Nil by auto
next
  case (Cons k kt)
  from parseKeys_roundtrip [OF assms(1)] obtain ks' where
    ks': "parseKeys X (map (EncodePubKey X) ks) = Inr ks'"
      "map (EncodePubKey X) ks' = map (EncodePubKey X) ks" by blast
  have "parseTag X u (PUBKEYS # map (EncodePubKey X) ks) = Inr (u\<lparr>Pubkeys := ks'\<rparr>)"
    using ks'(1) unfolding Cons
    by (simp add: parseTag_def NSIGS_def SIGFLAG_def PUBKEYS_def del: parseKeys.simps)
  then show ?thesis using ks'(2) Cons by auto
qed

lemma piece_refund:
  assumes "list_all (keyRoundtrip X) ks" and "Refund u = []"
  shows "\<exists>ks'. parseTagsLoop X u (if length ks > 0 then [REFUND # map (EncodePubKey X) ks] else [])
            = Inr (u\<lparr>Refund := ks'\<rparr>)
         \<and> map (EncodePubKey X) ks' = map (EncodePubKey X) ks"
proof (cases ks)
  case Nil
  have "u\<lparr>Refund := []\<rparr> = u" using assms(2) by simp
  then show ?thesis using Nil by auto
next
  case (Cons k kt)
  from parseKeys_roundtrip [OF assms(1)] obtain ks' where
    ks': "parseKeys X (map (EncodePubKey X) ks) = Inr ks'"
      "map (EncodePubKey X) ks' = map (EncodePubKey X) ks" by blast
  have "parseTag X u (REFUND # map (EncodePubKey X) ks) = Inr (u\<lparr>Refund := ks'\<rparr>)"
    using ks'(1) unfolding Cons
    by (simp add: parseTag_def NSIGS_def SIGFLAG_def PUBKEYS_def LOCKTIME_def REFUND_def
        del: parseKeys.simps)
  then show ?thesis using ks'(2) Cons by auto
qed

lemma length_Serialize: "length (SerializeP2PKTags X t) \<le> 5"
  by (simp add: SerializeP2PKTags_def)

text \<open>
  C9. For tags \<open>t\<close> with \<open>Sigflag\<close> empty or \<open>SIG_ALL\<close>, \<open>0 \<le> NSigs \<le> 127\<close>, a
  non-negative \<open>Locktime\<close> (an \<^verbatim>\<open>int64\<close>, so below \<open>2^63\<close>) and keys that survive
  encoding, parsing the serialized tags succeeds, and the result agrees with \<open>t\<close> on
  \<open>Sigflag\<close>, \<open>NSigs\<close> and \<open>Locktime\<close> and has \<open>Pubkeys\<close> and \<open>Refund\<close> with the
  same serializations in the same order.
\<close>

theorem Parse_Serialize_roundtrip:
  assumes "Sigflag t = [] \<or> Sigflag t = ''SIG_ALL''"
    and "0 \<le> NSigs t" and "NSigs t \<le> 127"
    and "0 \<le> Locktime t" and "Locktime t < 2 ^ 63"
    and "list_all (keyRoundtrip X) (Pubkeys t)"
    and "list_all (keyRoundtrip X) (Refund t)"
  shows "\<exists>t'. ParseP2PKTags X (SerializeP2PKTags X t) = Inr t'
           \<and> Sigflag t' = Sigflag t \<and> NSigs t' = NSigs t \<and> Locktime t' = Locktime t
           \<and> map (EncodePubKey X) (Pubkeys t') = map (EncodePubKey X) (Pubkeys t)
           \<and> map (EncodePubKey X) (Refund t') = map (EncodePubKey X) (Refund t)"
proof -
  let ?u1 = "(zeroTags :: 'a P2PKTags)\<lparr>Sigflag := Sigflag t\<rparr>"
  let ?u2 = "?u1\<lparr>NSigs := NSigs t\<rparr>"
  have sf: "Sigflag t = [] \<or> Sigflag t = SIGALL" using assms(1) by (simp add: SIGALL_def)
  have 1: "parseTagsLoop X zeroTags (if Sigflag t = SIGALL then [[SIGFLAG, SIGALL]] else []) = Inr ?u1"
    by (rule piece_sigflag [OF sf]) (simp add: zeroTags_def)
  have 2: "parseTagsLoop X ?u1 (if NSigs t > 0 then [[NSIGS, FormatInt (NSigs t)]] else []) = Inr ?u2"
    by (rule piece_nsigs [OF assms(2,3)]) (simp add: zeroTags_def)
  have "Pubkeys ?u2 = []" by (simp add: zeroTags_def)
  from piece_pubkeys [OF assms(6) this] obtain ks' where
    3: "parseTagsLoop X ?u2
          (if length (Pubkeys t) > 0 then [PUBKEYS # map (EncodePubKey X) (Pubkeys t)] else [])
        = Inr (?u2\<lparr>Pubkeys := ks'\<rparr>)"
    and ks': "map (EncodePubKey X) ks' = map (EncodePubKey X) (Pubkeys t)" by blast
  let ?u3 = "?u2\<lparr>Pubkeys := ks'\<rparr>"
  let ?u4 = "?u3\<lparr>Locktime := Locktime t\<rparr>"
  have 4: "parseTagsLoop X ?u3
        (if Locktime t > 0 then [[LOCKTIME, FormatInt (Locktime t)]] else []) = Inr ?u4"
    by (rule piece_locktime [OF assms(4,5)]) (simp add: zeroTags_def)
  have "Refund ?u4 = []" by (simp add: zeroTags_def)
  from piece_refund [OF assms(7) this] obtain rs' where
    5: "parseTagsLoop X ?u4
          (if length (Refund t) > 0 then [REFUND # map (EncodePubKey X) (Refund t)] else [])
        = Inr (?u4\<lparr>Refund := rs'\<rparr>)"
    and rs': "map (EncodePubKey X) rs' = map (EncodePubKey X) (Refund t)" by blast
  have "parseTagsLoop X zeroTags (SerializeP2PKTags X t) = Inr (?u4\<lparr>Refund := rs'\<rparr>)"
    unfolding SerializeP2PKTags_def
    by (simp only: parseTagsLoop_append 1 2 3 4 5 sum.case)
  then have "ParseP2PKTags X (SerializeP2PKTags X t) = Inr (?u4\<lparr>Refund := rs'\<rparr>)"
    using length_Serialize [of X t] by (simp add: ParseP2PKTags_def)
  then show ?thesis using ks' rs' by simp
qed

theorem Parse_Serialize_roundtrip_witness:
  "list_all (keyRoundtrip toyX) (Pubkeys exampleTags)
   \<and> list_all (keyRoundtrip toyX) (Refund exampleTags)
   \<and> (\<exists>t'. ParseP2PKTags toyX (SerializeP2PKTags toyX exampleTags) = Inr t'
         \<and> Sigflag t' = ''SIG_ALL'' \<and> NSigs t' = 2 \<and> Locktime t' = 1000
         \<and> map (EncodePubKey toyX) (Pubkeys t') = [''b2'', ''c3'']
         \<and> map (EncodePubKey toyX) (Refund t') = [''e5''])"
proof -
  have k: "list_all (keyRoundtrip toyX) (Pubkeys exampleTags)"
    "list_all (keyRoundtrip toyX) (Refund exampleTags)"
    by (simp_all add: exampleTags_def keyRoundtrip_def toyX_def hexDecodes_def isHexChar_def)
  have e: "map (EncodePubKey toyX) (Pubkeys exampleTags) = [''b2'', ''c3'']"
    "map (EncodePubKey toyX) (Refund exampleTags) = [''e5'']"
    by (simp_all add: exampleTags_def toyX_def)
  have "Sigflag exampleTags = [] \<or> Sigflag exampleTags = ''SIG_ALL''"
    "0 \<le> NSigs exampleTags" "NSigs exampleTags \<le> 127"
    "0 \<le> Locktime exampleTags" "Locktime exampleTags < 2 ^ 63"
    by (simp_all add: exampleTags_def)
  from Parse_Serialize_roundtrip [OF this k] e k show ?thesis
    by (simp add: exampleTags_def)
qed

section \<open>Properties of the keyset registry\<close>

lemmas wallet_eval = honestMint_def lyingMint_def failingMint_def listed_def cached_def
  wallet0_def viewActive_def viewInactive_def getActiveKeyset_def SaveKeyset_def GetKeyset_def
  shareInactive_def GetKeysetKeys_def hexDecodes_def isHexChar_def Let_def errorsNew_def











lemma isNetworkError_examples:
  "isNetworkError asciiLower offlineErr \<and> \<not> isNetworkError asciiLower protocolErr"
  by (simp add: isNetworkError_def offlineErr_def protocolErr_def networkErrors_def
      asciiLower_def asciiLowerChar_def)

text \<open>
  C6. For a mint the wallet knows: when refreshing the keyset list fails with an error
  that \<open>isNetworkError\<close> classifies as a network error, \<open>getActiveKeyset\<close> returns
  the cached active keyset with no error and leaves the wallet as it was; when it fails
  with another error, that error is returned (and the wallet is left as it was).
\<close>

theorem getActiveKeyset_offline:
  "(mints w mintURL = Some mint \<and> GetAllKeysets W mintURL = Inl (Err err)
        \<and> isNetworkError (StringsToLower W) err
      \<longrightarrow> getActiveKeyset W w mintURL = (Inr (wmActiveKeyset mint), w))
   \<and> (mints w mintURL = Some mint \<and> GetAllKeysets W mintURL = Inl (Err err)
        \<and> \<not> isNetworkError (StringsToLower W) err
      \<longrightarrow> getActiveKeyset W w mintURL = (Inl (Err err), w))"
  by (simp add: getActiveKeyset_def)

theorem getActiveKeyset_offline_witness:
  "mints wallet0 ''m'' = Some \<lparr>wmMintURL = ''m'', wmActiveKeyset = cached ''00aa'' True,
                                wmInactiveKeysets = Map.empty\<rparr>
   \<and> GetAllKeysets (failingMint offlineErr) ''m'' = Inl (Err offlineErr)
   \<and> isNetworkError (StringsToLower (failingMint offlineErr)) offlineErr
   \<and> getActiveKeyset (failingMint offlineErr) wallet0 ''m'' = (Inr (cached ''00aa'' True), wallet0)
   \<and> GetAllKeysets (failingMint protocolErr) ''m'' = Inl (Err protocolErr)
   \<and> \<not> isNetworkError (StringsToLower (failingMint protocolErr)) protocolErr
   \<and> getActiveKeyset (failingMint protocolErr) wallet0 ''m'' = (Inl (Err protocolErr), wallet0)"
  using getActiveKeyset_offline [of wallet0 "''m''"
      "\<lparr>wmMintURL = ''m'', wmActiveKeyset = cached ''00aa'' True, wmInactiveKeysets = Map.empty\<rparr>"
      "failingMint offlineErr" offlineErr]
    getActiveKeyset_offline [of wallet0 "''m''"
      "\<lparr>wmMintURL = ''m'', wmActiveKeyset = cached ''00aa'' True, wmInactiveKeysets = Map.empty\<rparr>"
      "failingMint protocolErr" protocolErr]
    isNetworkError_examples
  by (simp add: wallet0_def failingMint_def)

text \<open>
  When the cached active keyset is still listed as active, nothing changes unless its
  fee changed; then the keyset with the new fee is saved and becomes the mint's active
  keyset, or the error of the database is returned.
\<close>

lemma getActiveKeyset_still_active:
  assumes "mints w mintURL = Some mint"
    and "GetAllKeysets W mintURL = Inr allKeysets"
    and "stillActive allKeysets (Id (wmActiveKeyset mint)) = Some fee"
  shows "getActiveKeyset W w mintURL =
     (if fee = InputFeePpk (wmActiveKeyset mint) then (Inr (wmActiveKeyset mint), w)
      else case SaveKeysetErr W ((wmActiveKeyset mint)\<lparr>InputFeePpk := fee\<rparr>) of
             Some err \<Rightarrow> (Inl (Err err), w)
           | None \<Rightarrow>
               (Inr ((wmActiveKeyset mint)\<lparr>InputFeePpk := fee\<rparr>),
                w\<lparr>db := (db w)(Id (wmActiveKeyset mint) \<mapsto>
                                 (wmActiveKeyset mint)\<lparr>InputFeePpk := fee\<rparr>),
                  mints := (mints w)(mintURL \<mapsto>
                                 mint\<lparr>wmActiveKeyset :=
                                        (wmActiveKeyset mint)\<lparr>InputFeePpk := fee\<rparr>\<rparr>)\<rparr>))"
  using assms
  by (simp add: getActiveKeyset_def SaveKeyset_def Let_def split: option.splits)

text \<open>
  C7. After a change of the active keyset the wallet should hold exactly one new active
  keyset. When the refreshed list has no active keyset for the unit (here the cached one
  is listed as inactive and nothing else is), the code returns the demoted keyset, with
  \<open>Active = False\<close> and no error; the mint's entry keeps the old keyset as active,
  while the inactive set and the database hold it as inactive.
\<close>

theorem getActiveKeyset_no_new_active:
  "fst (getActiveKeyset (honestMint [listed ''00aa'' False]) wallet0 ''m'')
     = Inr (cached ''00aa'' False)
   \<and> viewActive (snd (getActiveKeyset (honestMint [listed ''00aa'' False]) wallet0 ''m'')) ''m''
     = Some (cached ''00aa'' True)
   \<and> viewInactive (snd (getActiveKeyset (honestMint [listed ''00aa'' False]) wallet0 ''m''))
        ''m'' ''00aa''
     = Some (cached ''00aa'' False)
   \<and> db (snd (getActiveKeyset (honestMint [listed ''00aa'' False]) wallet0 ''m'')) ''00aa''
     = Some (cached ''00aa'' False)"
  by (simp add: wallet_eval)

text \<open>
  The second loop does not stop at the first active keyset: with two listed as active,
  both are saved as active and the last one becomes the mint's active keyset.
\<close>

lemma getActiveKeyset_two_active:
  "fst (getActiveKeyset (honestMint [listed ''00bb'' True, listed ''00cc'' True]) wallet0 ''m'')
     = Inr (cached ''00cc'' True)
   \<and> viewActive (snd (getActiveKeyset (honestMint [listed ''00bb'' True, listed ''00cc'' True])
        wallet0 ''m'')) ''m''
     = Some (cached ''00cc'' True)
   \<and> db (snd (getActiveKeyset (honestMint [listed ''00bb'' True, listed ''00cc'' True])
        wallet0 ''m'')) ''00bb''
     = Some (cached ''00bb'' True)
   \<and> db (snd (getActiveKeyset (honestMint [listed ''00bb'' True, listed ''00cc'' True])
        wallet0 ''m'')) ''00cc''
     = Some (cached ''00cc'' True)"
  by (simp add: wallet_eval)

text \<open>
  With one new active keyset listed, the old one is demoted and saved, and the new one
  is fetched, saved and installed.
\<close>

lemma getActiveKeyset_rotation:
  "fst (getActiveKeyset (honestMint [listed ''00aa'' False, listed ''00bb'' True]) wallet0 ''m'')
     = Inr (cached ''00bb'' True)
   \<and> viewActive (snd (getActiveKeyset (honestMint [listed ''00aa'' False, listed ''00bb'' True])
        wallet0 ''m'')) ''m''
     = Some (cached ''00bb'' True)
   \<and> viewInactive (snd (getActiveKeyset (honestMint [listed ''00aa'' False, listed ''00bb'' True])
        wallet0 ''m'')) ''m'' ''00aa''
     = Some (cached ''00aa'' False)
   \<and> db (snd (getActiveKeyset (honestMint [listed ''00aa'' False, listed ''00bb'' True])
        wallet0 ''m'')) ''00aa''
     = Some (cached ''00aa'' False)
   \<and> db (snd (getActiveKeyset (honestMint [listed ''00aa'' False, listed ''00bb'' True])
        wallet0 ''m'')) ''00bb''
     = Some (cached ''00bb'' True)"
  by (simp add: wallet_eval)

section \<open>Properties of Subscribe\<close>

lemma Subscribe_ok:
  "canSubscribe E sm kind filters \<and> WriterReceives S
      \<and> Arrival S = Some (t, Response ''OK'') \<and> t < subscribeTimeout \<Longrightarrow>
   Subscribe E S sm kind filters
     = Some (Inr \<lparr>subId = SubIdOf E (filters ! 0), reqId = idCounter sm\<rparr>,
             sm\<lparr>subs := (subs sm)(SubIdOf E (filters ! 0) \<mapsto>
                            \<lparr>subId = SubIdOf E (filters ! 0), reqId = idCounter sm\<rparr>),
                idCounter := idCounter sm + 1\<rparr>)"
  by (simp add: Subscribe_def canSubscribe_def selectReply_def Let_def)

lemma Subscribe_refused:
  "canSubscribe E sm kind filters \<and> WriterReceives S
      \<and> Arrival S = Some (t, msg) \<and> t < subscribeTimeout \<and> msg \<noteq> Response ''OK'' \<Longrightarrow>
   failsAndRemoves (Subscribe E S sm kind filters) (SubIdOf E (filters ! 0))"
  by (cases msg)
     (simp_all add: Subscribe_def canSubscribe_def selectReply_def Let_def failsAndRemoves_def
        removeSubscription_def)

lemma Subscribe_timeout:
  "canSubscribe E sm kind filters \<and> WriterReceives S
      \<and> (Arrival S = None \<or> (\<exists>t' msg'. Arrival S = Some (t', msg') \<and> subscribeTimeout < t'))
   \<Longrightarrow> failsAndRemoves (Subscribe E S sm kind filters) (SubIdOf E (filters ! 0))"
  by (auto simp: Subscribe_def canSubscribe_def selectReply_def Let_def failsAndRemoves_def
      removeSubscription_def)

lemma Subscribe_returned:
  "Subscribe E S sm kind filters = Some (Inr sub, sm') \<Longrightarrow>
   WriterReceives S \<and> (\<exists>t'. Arrival S = Some (t', Response ''OK'') \<and> t' \<le> subscribeTimeout)"
  by (auto simp: Subscribe_def selectReply_def Let_def
      split: if_splits option.splits selected.splits message.splits prod.splits)

lemma Subscribe_blocked:
  "canSubscribe E sm kind filters \<and> \<not> WriterReceives S \<Longrightarrow> Subscribe E S sm kind filters = None"
  by (simp add: Subscribe_def canSubscribe_def Let_def)

text \<open>
  C8, as the code has it. Let the filters be non-empty, the kind supported and the
  request marshal. If a goroutine takes the request from the send queue: on a response
  \<open>OK\<close> received before the timer of 10 seconds fires, the subscription is returned
  and stays in the manager's map under its id; on another message received before then
  (an error, a response with another status), and when no message is there within 10
  seconds, an error is returned and the id is not in the map. A subscription is returned
  only on a response \<open>OK\<close> that arrived within the 10 seconds. If nothing takes the
  request from the send queue, \<open>Subscribe\<close> does not return.
\<close>

theorem Subscribe_outcome:
  "(canSubscribe E sm kind filters \<and> WriterReceives S
      \<and> Arrival S = Some (t, Response ''OK'') \<and> t < subscribeTimeout \<longrightarrow>
        Subscribe E S sm kind filters
          = Some (Inr \<lparr>subId = SubIdOf E (filters ! 0), reqId = idCounter sm\<rparr>,
                  sm\<lparr>subs := (subs sm)(SubIdOf E (filters ! 0) \<mapsto>
                                 \<lparr>subId = SubIdOf E (filters ! 0), reqId = idCounter sm\<rparr>),
                     idCounter := idCounter sm + 1\<rparr>))
   \<and> (canSubscribe E sm kind filters \<and> WriterReceives S
      \<and> Arrival S = Some (t, msg) \<and> t < subscribeTimeout \<and> msg \<noteq> Response ''OK'' \<longrightarrow>
        failsAndRemoves (Subscribe E S sm kind filters) (SubIdOf E (filters ! 0)))
   \<and> (canSubscribe E sm kind filters \<and> WriterReceives S
      \<and> (Arrival S = None \<or> (\<exists>t' msg'. Arrival S = Some (t', msg') \<and> subscribeTimeout < t'))
      \<longrightarrow> failsAndRemoves (Subscribe E S sm kind filters) (SubIdOf E (filters ! 0)))
   \<and> (Subscribe E S sm kind filters = Some (Inr sub, sm') \<longrightarrow>
        WriterReceives S
        \<and> (\<exists>t'. Arrival S = Some (t', Response ''OK'') \<and> t' \<le> subscribeTimeout))
   \<and> (canSubscribe E sm kind filters \<and> \<not> WriterReceives S \<longrightarrow>
        Subscribe E S sm kind filters = None)"
  using Subscribe_ok [of E sm kind filters S t] Subscribe_refused [of E sm kind filters S t msg]
    Subscribe_timeout [of E sm kind filters S] Subscribe_returned [of E S sm kind filters sub sm']
    Subscribe_blocked [of E sm kind filters S]
  by blast

theorem Subscribe_outcome_witness:
  "canSubscribe wsenv0 manager0 ''mint_quote'' [''q1'']
   \<and> Subscribe wsenv0
        \<lparr>WriterReceives = True, Arrival = Some (2000000000, Response ''OK''), TimerFirst = True\<rparr>
        manager0 ''mint_quote'' [''q1'']
     = Some (Inr \<lparr>subId = ''id-q1'', reqId = 7\<rparr>,
             manager0\<lparr>subs := (subs manager0)(''id-q1'' \<mapsto> \<lparr>subId = ''id-q1'', reqId = 7\<rparr>),
                      idCounter := 8\<rparr>)
   \<and> failsAndRemoves
        (Subscribe wsenv0
           \<lparr>WriterReceives = True, Arrival = Some (2000000000, Response ''NO''), TimerFirst = True\<rparr>
           manager0 ''mint_quote'' [''q1'']) ''id-q1''
   \<and> failsAndRemoves
        (Subscribe wsenv0
           \<lparr>WriterReceives = True, Arrival = Some (2000000000, WsError ''boom''), TimerFirst = True\<rparr>
           manager0 ''mint_quote'' [''q1'']) ''id-q1''
   \<and> failsAndRemoves
        (Subscribe wsenv0 \<lparr>WriterReceives = True, Arrival = None, TimerFirst = True\<rparr>
           manager0 ''mint_quote'' [''q1'']) ''id-q1''
   \<and> failsAndRemoves
        (Subscribe wsenv0
           \<lparr>WriterReceives = True, Arrival = Some (11000000000, Response ''OK''), TimerFirst = True\<rparr>
           manager0 ''mint_quote'' [''q1'']) ''id-q1''
   \<and> Subscribe wsenv0 \<lparr>WriterReceives = False, Arrival = None, TimerFirst = True\<rparr>
        manager0 ''mint_quote'' [''q1''] = None"
proof -
  let ?sub = "\<lparr>subId = ''id-q1'', reqId = 7\<rparr>"
  have c: "canSubscribe wsenv0 manager0 ''mint_quote'' [''q1'']"
    by (simp add: canSubscribe_def IsSubscriptionKindSupported_def wsenv0_def manager0_def)
  have i: "SubIdOf wsenv0 ([''q1''] ! 0) = ''id-q1''" "idCounter manager0 = 7"
    by (simp_all add: wsenv0_def manager0_def)
  have ne: "Response ''NO'' \<noteq> Response ''OK''" "WsError ''boom'' \<noteq> Response ''OK''" by simp_all
  have t: "(2000000000 :: nat) < subscribeTimeout" "subscribeTimeout < (11000000000 :: nat)"
    by (simp_all add: subscribeTimeout_def)
  have 1: "Subscribe wsenv0
        \<lparr>WriterReceives = True, Arrival = Some (2000000000, Response ''OK''), TimerFirst = True\<rparr>
        manager0 ''mint_quote'' [''q1'']
     = Some (Inr ?sub,
             manager0\<lparr>subs := (subs manager0)(''id-q1'' \<mapsto> ?sub), idCounter := 8\<rparr>)"
    using Subscribe_outcome [of wsenv0 manager0 "''mint_quote''" "[''q1'']"
        "\<lparr>WriterReceives = True, Arrival = Some (2000000000, Response ''OK''), TimerFirst = True\<rparr>"
        2000000000 "Response ''OK''" ?sub manager0] c t(1)
    unfolding i by simp
  have 2: "failsAndRemoves
        (Subscribe wsenv0
           \<lparr>WriterReceives = True, Arrival = Some (2000000000, Response ''NO''), TimerFirst = True\<rparr>
           manager0 ''mint_quote'' [''q1'']) ''id-q1''"
    using Subscribe_outcome [of wsenv0 manager0 "''mint_quote''" "[''q1'']"
        "\<lparr>WriterReceives = True, Arrival = Some (2000000000, Response ''NO''), TimerFirst = True\<rparr>"
        2000000000 "Response ''NO''" ?sub manager0] c t(1) ne(1)
    unfolding i by simp
  have 3: "failsAndRemoves
        (Subscribe wsenv0
           \<lparr>WriterReceives = True, Arrival = Some (2000000000, WsError ''boom''), TimerFirst = True\<rparr>
           manager0 ''mint_quote'' [''q1'']) ''id-q1''"
    using Subscribe_outcome [of wsenv0 manager0 "''mint_quote''" "[''q1'']"
        "\<lparr>WriterReceives = True, Arrival = Some (2000000000, WsError ''boom''), TimerFirst = True\<rparr>"
        2000000000 "WsError ''boom''" ?sub manager0] c t(1) ne(2)
    unfolding i by simp
  have 4: "failsAndRemoves
        (Subscribe wsenv0 \<lparr>WriterReceives = True, Arrival = None, TimerFirst = True\<rparr>
           manager0 ''mint_quote'' [''q1'']) ''id-q1''"
    using Subscribe_outcome [of wsenv0 manager0 "''mint_quote''" "[''q1'']"
        "\<lparr>WriterReceives = True, Arrival = None, TimerFirst = True\<rparr>"
        0 "Response ''OK''" ?sub manager0] c
    unfolding i by simp
  have 5: "failsAndRemoves
        (Subscribe wsenv0
           \<lparr>WriterReceives = True, Arrival = Some (11000000000, Response ''OK''), TimerFirst = True\<rparr>
           manager0 ''mint_quote'' [''q1'']) ''id-q1''"
    using Subscribe_outcome [of wsenv0 manager0 "''mint_quote''" "[''q1'']"
        "\<lparr>WriterReceives = True, Arrival = Some (11000000000, Response ''OK''), TimerFirst = True\<rparr>"
        0 "Response ''OK''" ?sub manager0] c t(2)
    unfolding i by simp
  have 6: "Subscribe wsenv0 \<lparr>WriterReceives = False, Arrival = None, TimerFirst = True\<rparr>
        manager0 ''mint_quote'' [''q1''] = None"
    using Subscribe_outcome [of wsenv0 manager0 "''mint_quote''" "[''q1'']"
        "\<lparr>WriterReceives = False, Arrival = None, TimerFirst = True\<rparr>"
        0 "Response ''OK''" ?sub manager0] c
    by simp
  from c 1 2 3 4 5 6 show ?thesis by blast
qed

text \<open>
  C8 as stated fails when the writer of \<open>Run\<close> is not receiving: no reply arrives, and
  \<open>Subscribe\<close> stays in the send of its request, before the timer is started.
\<close>

theorem Subscribe_blocked_counterexample:
  "canSubscribe wsenv0 manager0 ''mint_quote'' [''q1'']
   \<and> Subscribe wsenv0 \<lparr>WriterReceives = False, Arrival = None, TimerFirst = True\<rparr>
        manager0 ''mint_quote'' [''q1''] = None"
  by (simp add: Subscribe_def canSubscribe_def IsSubscriptionKindSupported_def wsenv0_def
      manager0_def Let_def)

end
